theory Spec2Isabelle
  imports Main "HOL-Library.AList"
begin

section \<open>Strings as the page script sees them\<close>

text \<open>
  Strings are lists of characters. Every character the selector builder inspects
  (the CSS special characters, the letters of tag names) is ASCII, so the model
  works per character. \<open>toLowerCase\<close> folds the ASCII letters, which is what the
  script's \<open>toLowerCase()\<close> does on ASCII tag names.
\<close>

definition backslash :: char where
  "backslash = CHR 0x5C"

definition dquote :: char where
  "dquote = CHR 0x22"

definition lower_char :: "char \<Rightarrow> char" where
  "lower_char c =
     (let n = (of_char c :: nat) in if 65 \<le> n \<and> n \<le> 90 then char_of (n + 32) else c)"

definition toLowerCase :: "string \<Rightarrow> string" where
  "toLowerCase s = map lower_char s"

text \<open>Decimal rendering of a non-negative integer, as string concatenation with a
  number produces it.\<close>

definition digit_char :: "nat \<Rightarrow> char" where
  "digit_char d = char_of (48 + d)"

fun number_toString :: "nat \<Rightarrow> string" where
  "number_toString n =
     (if n < 10 then [digit_char n]
      else number_toString (n div 10) @ [digit_char (n mod 10)])"

declare number_toString.simps [simp del]

text \<open>\<open>Array.prototype.join\<close>.\<close>

fun join :: "string \<Rightarrow> string list \<Rightarrow> string" where
  "join sep [] = []"
| "join sep [x] = x"
| "join sep (x # y # ys) = x @ sep @ join sep (y # ys)"

text \<open>\<open>Array.prototype.indexOf\<close>: the first position holding the value, or \<open>-1\<close>.\<close>

fun indexOf :: "'a list \<Rightarrow> 'a \<Rightarrow> int" where
  "indexOf [] v = -1"
| "indexOf (x # xs) v =
     (if x = v then 0 else (let i = indexOf xs v in if i < 0 then -1 else i + 1))"

section \<open>escapeSelector\<close>

text \<open>
  The script's helper is
  \<^verbatim>\<open>str.replace(/([!"#$%&'()*+,./:;<=>?@[\\\]^\`{|}~])/g, '\\$1')\<close>
  once the template literal that carries it has been read: a global replacement of
  every character of the class by a backslash followed by that character. The class
  is listed here in the order the source writes it.
\<close>

definition css_special_chars :: "char list" where
  "css_special_chars =
     [CHR ''!'', dquote, CHR ''#'', CHR ''$'', CHR ''%'', CHR ''&'', CHR 0x27,
      CHR ''('', CHR '')'', CHR ''*'', CHR ''+'', CHR '','', CHR ''.'', CHR ''/'',
      CHR '':'', CHR '';'', CHR ''<'', CHR ''='', CHR ''>'', CHR ''?'', CHR ''@'',
      CHR ''['', backslash, CHR '']'', CHR ''^'', CHR 0x60, CHR ''{'', CHR ''|'',
      CHR ''}'', CHR ''~'']"

definition is_css_special :: "char \<Rightarrow> bool" where
  "is_css_special c = (c \<in> set css_special_chars)"

fun escapeSelector :: "string \<Rightarrow> string" where
  "escapeSelector [] = []"
| "escapeSelector (c # cs) =
     (if is_css_special c then backslash # c # escapeSelector cs
      else c # escapeSelector cs)"

section \<open>The document as the selector builder reads it\<close>

text \<open>
  The markup is a finite tree. An element, as the script holds one, is a subtree
  together with its position: for each ancestor, innermost first, the ancestor's own
  tag and attributes and the subtrees to the left and to the right on the way down.
  Two elements are the same object exactly when subtree and position agree, so
  identical sibling subtrees remain distinct elements.
\<close>

datatype tree = Tree (tree_tag: string) (tree_attrs: "(string \<times> string) list")
  (tree_children: "tree list")

datatype crumb = Crumb (left: "tree list") (ptag: string)
  (pattrs: "(string \<times> string) list") (right: "tree list")

type_synonym element = "tree \<times> crumb list"

definition tagName :: "element \<Rightarrow> string" where
  "tagName el = tree_tag (fst el)"

definition getAttribute :: "element \<Rightarrow> string \<Rightarrow> string option" where
  "getAttribute el name = map_of (tree_attrs (fst el)) name"

text \<open>The \<open>id\<close> property reflects the \<open>id\<close> attribute and is the empty string
  without one.\<close>

definition elem_id :: "element \<Rightarrow> string" where
  "elem_id el = (case getAttribute el ''id'' of None \<Rightarrow> [] | Some v \<Rightarrow> v)"

fun parentElement :: "element \<Rightarrow> element option" where
  "parentElement (t, []) = None"
| "parentElement (t, c # cs) =
     Some (Tree (ptag c) (pattrs c) (left c @ t # right c), cs)"

definition child_at :: "element \<Rightarrow> nat \<Rightarrow> element" where
  "child_at p j =
     (let ch = tree_children (fst p)
      in (ch ! j, Crumb (take j ch) (tree_tag (fst p)) (tree_attrs (fst p))
                    (drop (Suc j) ch) # snd p))"

definition children_of :: "element \<Rightarrow> element list" where
  "children_of p = map (child_at p) [0 ..< length (tree_children (fst p))]"

section \<open>BUILD_SELECTOR_FUNCTION\<close>

text \<open>
  The function injected into the page. Its \<open>this\<close> is the element; \<open>body\<close> is
  \<open>document.body\<close> when that element lies in the tree of \<open>this\<close>, and \<open>None\<close>
  otherwise (no body, or \<open>this\<close> detached from the document).
\<close>

definition path_segment :: "element \<Rightarrow> element \<Rightarrow> string" where
  "path_segment el parent =
     (let tag = toLowerCase (tagName el);
          siblings = filter (\<lambda>c. toLowerCase (tagName c) = tag) (children_of parent)
      in if length siblings > 1
         then (let idx = indexOf siblings el + 1
               in tag @ '':nth-of-type('' @ number_toString (nat idx) @ '')'')
         else tag)"

function walk :: "element option \<Rightarrow> element \<Rightarrow> string list \<Rightarrow> string list" where
  "walk body el path =
     (if Some el \<noteq> body then
        (case parentElement el of
           None \<Rightarrow> path
         | Some parent \<Rightarrow> walk body parent (path_segment el parent # path))
      else path)"
  by pat_completeness auto
termination
proof (relation "measure (\<lambda>(body, el, path). length (snd el))")
  show "wf (measure (\<lambda>(body, el, path). length (snd el)))" by simp
next
  fix body :: "element option" and el :: element and path :: "string list" and parent
  assume "parentElement el = Some parent"
  then show "((body, parent, path_segment el parent # path), (body, el, path))
    \<in> measure (\<lambda>(body, el, path). length (snd el))"
    by (cases el; cases "snd el") auto
qed

declare walk.simps [simp del]

definition form_tags :: "string list" where
  "form_tags = [''input'', ''select'', ''textarea'']"

definition truthy :: "string option \<Rightarrow> bool" where
  "truthy v = (case v of None \<Rightarrow> False | Some s \<Rightarrow> s \<noteq> [])"

definition str :: "string option \<Rightarrow> string" where
  "str v = (case v of None \<Rightarrow> [] | Some s \<Rightarrow> s)"

definition build_selector :: "element option \<Rightarrow> element \<Rightarrow> string" where
  "build_selector body this =
     (if elem_id this \<noteq> [] then ''#'' @ escapeSelector (elem_id this)
      else
        let testId = getAttribute this ''data-testid'' in
        if truthy testId
        then ''[data-testid='' @ [dquote] @ escapeSelector (str testId) @ [dquote] @ '']''
        else
          let tagName' = toLowerCase (tagName this);
              name = getAttribute this ''name'' in
          if truthy name \<and> indexOf form_tags tagName' \<noteq> -1
          then tagName' @ ''[name='' @ [dquote] @ escapeSelector (str name) @ [dquote] @ '']''
          else
            let path = walk body this [] in
            if length path > 0 then ''body > '' @ join '' > '' path else tagName')"

section \<open>The inspection channel\<close>

text \<open>
  The three identity operations talk to the browser over a CDP session. The browser
  is outside the program, so it is a parameter: a record of its replies, each reply
  depending on and changing an engine state of arbitrary type. A reply is either a
  rejection (\<open>Inl\<close>) or a value. Only the fields of each reply that the code reads
  are kept: \<open>root.nodeId\<close>, \<open>nodeId\<close>, \<open>node.backendNodeId\<close>, \<open>object.objectId\<close>
  (which may be missing), and for a function call the text of the exception details,
  when present, and the returned value.
\<close>

datatype error = Error (message: string)

type_synonym session = nat

record call_result =
  exceptionDetails :: "string option"
  result_value :: string

record 'e cdp =
  newCDPSession :: "'e \<Rightarrow> (error + session) \<times> 'e"
  getDocument :: "session \<Rightarrow> int \<Rightarrow> 'e \<Rightarrow> (error + int) \<times> 'e"
  querySelector :: "session \<Rightarrow> int \<Rightarrow> string \<Rightarrow> 'e \<Rightarrow> (error + int) \<times> 'e"
  describeNode :: "session \<Rightarrow> int \<Rightarrow> 'e \<Rightarrow> (error + int) \<times> 'e"
  resolveNode :: "session \<Rightarrow> int \<Rightarrow> string option \<Rightarrow> 'e \<Rightarrow> (error + string option) \<times> 'e"
  callFunctionOn :: "session \<Rightarrow> string \<Rightarrow> (element option \<Rightarrow> element \<Rightarrow> string) \<Rightarrow> 'e
    \<Rightarrow> (error + call_result) \<times> 'e"
  releaseObjectGroup :: "session \<Rightarrow> string \<Rightarrow> 'e \<Rightarrow> (error + unit) \<times> 'e"
  detach :: "session \<Rightarrow> 'e \<Rightarrow> (error + unit) \<times> 'e"

text \<open>
  Attaching and detaching can be rejected like any other request. The operations
  handle neither rejection: a rejected \<open>newCDPSession\<close> happens before the \<open>try\<close>
  block, a rejected \<open>detach\<close> inside the \<open>finally\<close> block, and both reach the
  caller.

  \<open>try { ... } finally { await cdpSession.detach(); }\<close>: the detach runs after the
  block whatever its outcome; the outcome of the block stands unless the detach
  itself is rejected.
\<close>

definition finally_detach :: "'e cdp \<Rightarrow> session \<Rightarrow> (error + 'a) \<times> 'e \<Rightarrow> (error + 'a) \<times> 'e" where
  "finally_detach C s re =
     (case detach C s (snd re) of
        (Inl err, e') \<Rightarrow> (Inl err, e')
      | (Inr u, e') \<Rightarrow> (fst re, e'))"

section \<open>resolveBackendIds\<close>

text \<open>
  The selector map and the result are JavaScript \<open>Map\<close>s: association lists in
  insertion order, \<open>Map.set\<close> replacing the value of a key already present and
  appending otherwise. One loop iteration is the inner \<open>try\<close> with its empty
  \<open>catch\<close>.
\<close>

definition resolve_entry :: "'e cdp \<Rightarrow> session \<Rightarrow> int \<Rightarrow> nat \<times> string
    \<Rightarrow> (nat \<times> int) list \<times> 'e \<Rightarrow> (nat \<times> int) list \<times> 'e" where
  "resolve_entry C s root entry me =
     (case querySelector C s root (snd entry) (snd me) of
        (Inl err, e1) \<Rightarrow> (fst me, e1)
      | (Inr nodeId, e1) \<Rightarrow>
          if nodeId \<noteq> 0 then
            (case describeNode C s nodeId e1 of
               (Inl err, e2) \<Rightarrow> (fst me, e2)
             | (Inr backendNodeId, e2) \<Rightarrow>
                 (AList.update (fst entry) backendNodeId (fst me), e2))
          else (fst me, e1))"

fun resolve_loop :: "'e cdp \<Rightarrow> session \<Rightarrow> int \<Rightarrow> (nat \<times> string) list
    \<Rightarrow> (nat \<times> int) list \<times> 'e \<Rightarrow> (nat \<times> int) list \<times> 'e" where
  "resolve_loop C s root [] me = me"
| "resolve_loop C s root (entry # rest) me =
     resolve_loop C s root rest (resolve_entry C s root entry me)"

definition resolveBackendIds :: "'e cdp \<Rightarrow> (nat \<times> string) list \<Rightarrow> 'e
    \<Rightarrow> (error + (nat \<times> int) list) \<times> 'e" where
  "resolveBackendIds C selectorMap e =
     (case newCDPSession C e of
        (Inl err, e0) \<Rightarrow> (Inl err, e0)
      | (Inr cdpSession, e0) \<Rightarrow>
          finally_detach C cdpSession
            (case getDocument C cdpSession 0 e0 of
               (Inl err, e1) \<Rightarrow> (Inl err, e1)
             | (Inr root, e1) \<Rightarrow>
                 (case resolve_loop C cdpSession root selectorMap ([], e1) of
                    (indexToBackendId, e2) \<Rightarrow> (Inr indexToBackendId, e2))))"

section \<open>resolveSelectorFromBackendId\<close>

definition objectGroup :: string where
  "objectGroup = ''devbrowser-selector''"

definition resolveSelectorFromBackendId :: "'e cdp \<Rightarrow> int \<Rightarrow> 'e \<Rightarrow> (error + string) \<times> 'e" where
  "resolveSelectorFromBackendId C backendNodeId e =
     (case newCDPSession C e of
        (Inl err, e0) \<Rightarrow> (Inl err, e0)
      | (Inr cdpSession, e0) \<Rightarrow>
          finally_detach C cdpSession
            (case resolveNode C cdpSession backendNodeId (Some objectGroup) e0 of
               (Inl err, e1) \<Rightarrow> (Inl err, e1)
             | (Inr objectId, e1) \<Rightarrow>
                 if \<not> truthy objectId
                 then (Inl (Error ''Could not resolve node to object''), e1)
                 else
                   (case callFunctionOn C cdpSession (str objectId) build_selector e1 of
                      (Inl err, e2) \<Rightarrow> (Inl err, e2)
                    | (Inr result, e2) \<Rightarrow>
                        (case releaseObjectGroup C cdpSession objectGroup e2 of
                           (Inl err, e3) \<Rightarrow> (Inl err, e3)
                         | (Inr u, e3) \<Rightarrow>
                             (case exceptionDetails result of
                                Some text \<Rightarrow>
                                  (Inl (Error (''Failed to build selector: '' @ text)), e3)
                              | None \<Rightarrow> (Inr (result_value result), e3))))))"

section \<open>isBackendNodeIdValid\<close>

definition isBackendNodeIdValid :: "'e cdp \<Rightarrow> int \<Rightarrow> 'e \<Rightarrow> (error + bool) \<times> 'e" where
  "isBackendNodeIdValid C backendNodeId e =
     (case newCDPSession C e of
        (Inl err, e0) \<Rightarrow> (Inl err, e0)
      | (Inr cdpSession, e0) \<Rightarrow>
          finally_detach C cdpSession
            (case resolveNode C cdpSession backendNodeId None e0 of
               (Inl err, e1) \<Rightarrow> (Inr False, e1)
             | (Inr object, e1) \<Rightarrow> (Inr True, e1)))"

section \<open>getLLMTree, processTree, serializeDOMTree\<close>

text \<open>
  The extraction, the three filters and the serializer live in other modules; the
  pipeline functions only compose them, so they are parameters here, typed as their
  signatures say: extraction and the visibility filter may yield nothing, the other
  stages always yield a tree or a result. The raw node type and the options type are
  type variables, and \<open>emptyOptions\<close> is the default \<open>{}\<close> of the \<open>options\<close>
  parameter. Every call of a stage is appended to a log of stage calls.
\<close>

datatype stage =
  ExtractRawDOM | FilterVisibleNodes | FilterByPaintOrder | FilterByBboxPropagation
  | SerializeTree

record LLMTreeResult =
  tree :: string
  selectorMap :: "(nat \<times> string) list"

record ('p, 'n, 'o) dom_stages =
  extractRawDOM :: "'p \<Rightarrow> 'n option"
  filterVisibleNodes :: "'n \<Rightarrow> 'n option"
  filterByPaintOrder :: "'n \<Rightarrow> 'n"
  filterByBboxPropagation :: "'n \<Rightarrow> 'n"
  serializeTree :: "'n \<Rightarrow> 'o \<Rightarrow> LLMTreeResult"
  emptyOptions :: 'o

definition invoke :: "stage \<Rightarrow> ('a \<Rightarrow> 'b) \<Rightarrow> 'a \<Rightarrow> stage list \<Rightarrow> 'b \<times> stage list" where
  "invoke st f x log = (f x, log @ [st])"

definition options_or_default :: "('p, 'n, 'o) dom_stages \<Rightarrow> 'o option \<Rightarrow> 'o" where
  "options_or_default S options = (case options of None \<Rightarrow> emptyOptions S | Some opts \<Rightarrow> opts)"

definition getLLMTree :: "('p, 'n, 'o) dom_stages \<Rightarrow> 'p \<Rightarrow> 'o option \<Rightarrow> stage list
    \<Rightarrow> LLMTreeResult \<times> stage list" where
  "getLLMTree S page options log =
     (case invoke ExtractRawDOM (extractRawDOM S) page log of
        (None, l1) \<Rightarrow> (\<lparr>tree = [], selectorMap = []\<rparr>, l1)
      | (Some rawTree, l1) \<Rightarrow>
          (case invoke FilterVisibleNodes (filterVisibleNodes S) rawTree l1 of
             (None, l2) \<Rightarrow> (\<lparr>tree = [], selectorMap = []\<rparr>, l2)
           | (Some visibleTree, l2) \<Rightarrow>
               (case invoke FilterByPaintOrder (filterByPaintOrder S) visibleTree l2 of
                  (paintFiltered, l3) \<Rightarrow>
                    (case invoke FilterByBboxPropagation (filterByBboxPropagation S)
                            paintFiltered l3 of
                       (bboxFiltered, l4) \<Rightarrow>
                         invoke SerializeTree
                           (\<lambda>t. serializeTree S t (options_or_default S options))
                           bboxFiltered l4))))"

definition processTree :: "('p, 'n, 'o) dom_stages \<Rightarrow> 'n \<Rightarrow> stage list
    \<Rightarrow> 'n option \<times> stage list" where
  "processTree S rawTree log =
     (case invoke FilterVisibleNodes (filterVisibleNodes S) rawTree log of
        (None, l1) \<Rightarrow> (None, l1)
      | (Some visibleTree, l1) \<Rightarrow>
          (case invoke FilterByPaintOrder (filterByPaintOrder S) visibleTree l1 of
             (paintFiltered, l2) \<Rightarrow>
               (case invoke FilterByBboxPropagation (filterByBboxPropagation S)
                       paintFiltered l2 of
                  (bboxFiltered, l3) \<Rightarrow> (Some bboxFiltered, l3))))"

definition serializeDOMTree :: "('p, 'n, 'o) dom_stages \<Rightarrow> 'n \<Rightarrow> 'o option \<Rightarrow> stage list
    \<Rightarrow> LLMTreeResult \<times> stage list" where
  "serializeDOMTree S t options log =
     invoke SerializeTree (\<lambda>t. serializeTree S t (options_or_default S options)) t log"

section \<open>What the specification says, in its own terms\<close>

subsection \<open>The ancestor path\<close>

text \<open>
  The same-tag siblings of an element are the children of its parent, itself
  included, whose lower-cased tag is its own; its position among them is one more
  than the number of those to its left. A level contributes
  \<open>tag:nth-of-type(position)\<close> when there is more than one of them, the bare tag
  otherwise. The levels walked are the element and its ancestors, innermost first,
  up to but excluding the first that is the body or has no parent element.
\<close>

definition same_tag :: "string \<Rightarrow> tree \<Rightarrow> bool" where
  "same_tag tag t = (toLowerCase (tree_tag t) = tag)"

fun spec_segment :: "element \<Rightarrow> string" where
  "spec_segment (t, []) = toLowerCase (tree_tag t)"
| "spec_segment (t, c # cs) =
     (let tag = toLowerCase (tree_tag t)
      in if length (filter (same_tag tag) (left c @ t # right c)) > 1
         then tag @ '':nth-of-type(''
              @ number_toString (Suc (length (filter (same_tag tag) (left c)))) @ '')''
         else tag)"

fun ancestors_or_self :: "tree \<Rightarrow> crumb list \<Rightarrow> element list" where
  "ancestors_or_self t [] = [(t, [])]"
| "ancestors_or_self t (c # cs) =
     (t, c # cs) # ancestors_or_self (Tree (ptag c) (pattrs c) (left c @ t # right c)) cs"

definition walked :: "element option \<Rightarrow> element \<Rightarrow> element list" where
  "walked body el =
     takeWhile (\<lambda>e. Some e \<noteq> body \<and> parentElement e \<noteq> None)
       (ancestors_or_self (fst el) (snd el))"

definition spec_path_selector :: "element option \<Rightarrow> element \<Rightarrow> string" where
  "spec_path_selector body el =
     (let segments = rev (map spec_segment (walked body el))
      in if segments = [] then toLowerCase (tagName el)
         else ''body > '' @ join '' > '' segments)"

subsection \<open>The escaping rule\<close>

definition css_special_set :: "char set" where
  "css_special_set =
     set (''!'' @ [CHR 0x22] @ ''#$%&'' @ [CHR 0x27] @ ''()*+,./:;<=>?@['' @ [CHR 0x5C]
          @ '']^`{|}~'')"

definition escape_char :: "char \<Rightarrow> string" where
  "escape_char c = (if c \<in> css_special_set then [CHR 0x5C, c] else [c])"

subsection \<open>Resolution of one selector and of one handle\<close>

text \<open>
  \<open>lookup_handle\<close> is what the engine, in a given state, makes of one selector: the
  handle of the first match, or nothing when the query is rejected, matches no node
  or the node cannot be described.
\<close>

definition lookup_handle :: "'e cdp \<Rightarrow> session \<Rightarrow> int \<Rightarrow> string \<Rightarrow> 'e \<Rightarrow> int option" where
  "lookup_handle C s root selector e =
     (case querySelector C s root selector e of
        (Inl err, e1) \<Rightarrow> None
      | (Inr nodeId, e1) \<Rightarrow>
          if nodeId = 0 then None
          else (case describeNode C s nodeId e1 of
                  (Inl err, e2) \<Rightarrow> None
                | (Inr backendNodeId, e2) \<Rightarrow> Some backendNodeId))"

text \<open>
  A handle is unresolvable, in a given engine state, when resolving it is rejected or
  yields an object without an object id; the synthesis fails when the function call
  is rejected or reports exception details.
\<close>

definition handle_unresolvable :: "'e cdp \<Rightarrow> session \<Rightarrow> int \<Rightarrow> 'e \<Rightarrow> bool" where
  "handle_unresolvable C s backendNodeId e =
     (case fst (resolveNode C s backendNodeId (Some objectGroup) e) of
        Inl err \<Rightarrow> True
      | Inr objectId \<Rightarrow> \<not> truthy objectId)"

definition synthesis_fails :: "'e cdp \<Rightarrow> session \<Rightarrow> string \<Rightarrow> 'e \<Rightarrow> bool" where
  "synthesis_fails C s objectId e =
     (case fst (callFunctionOn C s objectId build_selector e) of
        Inl err \<Rightarrow> True
      | Inr result \<Rightarrow> exceptionDetails result \<noteq> None)"

subsection \<open>The requests an engine receives\<close>

text \<open>
  To speak of what a call asks of the engine, any engine can be made to keep a
  record of the requests it receives: \<open>traced C\<close> answers exactly as \<open>C\<close> does
  and appends to a log, for each request it is actually given, the session it
  attached, the command it was sent and on which session, or the session it was
  asked to detach and whether it did. The operations themselves write nothing to
  the log, so an entry is there exactly when the operation made the request.
\<close>

datatype command =
    DOM_getDocument int
  | DOM_querySelector int string
  | DOM_describeNode int
  | DOM_resolveNode int "string option"
  | Runtime_callFunctionOn string
  | Runtime_releaseObjectGroup string

datatype event =
  Attach session | Send session command | Detach session | DetachRejected session

definition logged :: "event \<Rightarrow> ('e \<Rightarrow> 'a \<times> 'e) \<Rightarrow> 'e \<times> event list \<Rightarrow> 'a \<times> ('e \<times> event list)" where
  "logged ev reply el = (case reply (fst el) of (r, e') \<Rightarrow> (r, (e', snd el @ [ev])))"

definition traced :: "'e cdp \<Rightarrow> ('e \<times> event list) cdp" where
  "traced C =
     \<lparr> newCDPSession = (\<lambda>el.
         case newCDPSession C (fst el) of
           (Inl err, e') \<Rightarrow> (Inl err, (e', snd el))
         | (Inr s, e') \<Rightarrow> (Inr s, (e', snd el @ [Attach s]))),
       getDocument = (\<lambda>s depth. logged (Send s (DOM_getDocument depth)) (getDocument C s depth)),
       querySelector = (\<lambda>s root selector.
         logged (Send s (DOM_querySelector root selector)) (querySelector C s root selector)),
       describeNode = (\<lambda>s nodeId. logged (Send s (DOM_describeNode nodeId)) (describeNode C s nodeId)),
       resolveNode = (\<lambda>s backendNodeId grp.
         logged (Send s (DOM_resolveNode backendNodeId grp)) (resolveNode C s backendNodeId grp)),
       callFunctionOn = (\<lambda>s objectId f.
         logged (Send s (Runtime_callFunctionOn objectId)) (callFunctionOn C s objectId f)),
       releaseObjectGroup = (\<lambda>s grp.
         logged (Send s (Runtime_releaseObjectGroup grp)) (releaseObjectGroup C s grp)),
       detach = (\<lambda>s el.
         case detach C s (fst el) of
           (Inl err, e') \<Rightarrow> (Inl err, (e', snd el @ [DetachRejected s]))
         | (Inr u, e') \<Rightarrow> (Inr u, (e', snd el @ [Detach s]))) \<rparr>"

fun sent_on :: "session \<Rightarrow> event \<Rightarrow> bool" where
  "sent_on s (Send s' c) = (s = s')"
| "sent_on s (Attach s') = False"
| "sent_on s (Detach s') = False"
| "sent_on s (DetachRejected s') = False"

text \<open>
  The requests of one call are scoped when either no session was attached and
  nothing was asked at all, or they start by attaching a session, end with the
  request to detach that same session, and in between only send commands on it.
\<close>

fun scoped :: "event list \<Rightarrow> bool" where
  "scoped [] = True"
| "scoped (Attach s # rest) =
     (rest \<noteq> [] \<and> (last rest = Detach s \<or> last rest = DetachRejected s)
      \<and> list_all (sent_on s) (butlast rest))"
| "scoped (Send s c # rest) = False"
| "scoped (Detach s # rest) = False"
| "scoped (DetachRejected s # rest) = False"

fun is_query :: "event \<Rightarrow> bool" where
  "is_query (Send s (DOM_querySelector root selector)) = True"
| "is_query ev = False"

section \<open>A page and an engine from the test suite\<close>

text \<open>
  A page in the style of the repository's tests: a container with a button that has
  both an id and a test id, a named input, a button with a test id only, and two
  plain buttons. The engine over it assigns node 2 to \<open>#btn1\<close>, rejects the
  selector \<open>::\<close>, finds nothing else, hands out backend ids ten above node ids, and
  knows the backend ids 12 (the first button) and 13 (a text node, on which the
  injected function throws). Its state counts the commands it has answered.
\<close>

definition test_html :: tree where
  "test_html =
     Tree ''HTML'' []
       [Tree ''HEAD'' [] [],
        Tree ''BODY'' []
          [Tree ''DIV'' [(''id'', ''container'')]
             [Tree ''BUTTON'' [(''id'', ''btn1''), (''data-testid'', ''first'')] [],
              Tree ''INPUT'' [(''type'', ''text''), (''name'', ''user.name'')] [],
              Tree ''BUTTON'' [(''data-testid'', ''submit:btn'')] [],
              Tree ''BUTTON'' [] [],
              Tree ''BUTTON'' [] []]]]"

definition test_body :: element where
  "test_body = child_at (test_html, []) 1"

definition test_container :: element where
  "test_container = child_at test_body 0"

definition test_child :: "nat \<Rightarrow> element" where
  "test_child j = child_at test_container j"

definition test_cdp :: "nat cdp" where
  "test_cdp =
     \<lparr> newCDPSession = (\<lambda>e. (Inr 7, Suc e)),
       getDocument = (\<lambda>s depth e. (Inr 1, Suc e)),
       querySelector = (\<lambda>s root selector e.
         if selector = ''::'' then (Inl (Error ''DOM Error while querying''), Suc e)
         else if selector = ''#btn1'' then (Inr 2, Suc e)
         else (Inr 0, Suc e)),
       describeNode = (\<lambda>s nodeId e. (Inr (nodeId + 10), Suc e)),
       resolveNode = (\<lambda>s backendNodeId grp e.
         if backendNodeId = 12 then (Inr (Some ''obj-12''), Suc e)
         else if backendNodeId = 13 then (Inr (Some ''obj-13''), Suc e)
         else if backendNodeId = 14 then (Inr None, Suc e)
         else (Inl (Error ''No node with given id found''), Suc e)),
       callFunctionOn = (\<lambda>s objectId f e.
         if objectId = ''obj-12''
         then (Inr \<lparr>exceptionDetails = None,
                     result_value = f (Some test_body) (test_child 0)\<rparr>, Suc e)
         else (Inr \<lparr>exceptionDetails = Some ''Uncaught'', result_value = []\<rparr>, Suc e)),
       releaseObjectGroup = (\<lambda>s grp e. (Inr (), Suc e)),
       detach = (\<lambda>s e. (Inr (), Suc e)) \<rparr>"

text \<open>The same engine on a closed page, and with a session that cannot be detached.\<close>

definition closed_cdp :: "nat cdp" where
  "closed_cdp = test_cdp\<lparr> newCDPSession := (\<lambda>e. (Inl (Error ''Target closed''), Suc e)) \<rparr>"

definition stuck_cdp :: "nat cdp" where
  "stuck_cdp = test_cdp\<lparr> detach := (\<lambda>s e. (Inl (Error ''detach failed''), Suc e)) \<rparr>"

text \<open>An engine whose answers depend on its state: \<open>describeNode\<close> is rejected
  until five requests have been answered.\<close>

definition flaky_cdp :: "nat cdp" where
  "flaky_cdp = test_cdp\<lparr> describeNode := (\<lambda>s nodeId e.
     if e < 5 then (Inl (Error ''Could not find node with given id''), Suc e)
     else (Inr (nodeId + 10), Suc e)) \<rparr>"

definition test_selectorMap :: "(nat \<times> string) list" where
  "test_selectorMap = [(1, ''#btn1''), (2, ''#nonexistent''), (3, ''::''), (4, ''#btn1'')]"

definition test_stages :: "(nat, nat list, nat) dom_stages" where
  "test_stages =
     \<lparr> extractRawDOM = (\<lambda>page. if page = 0 then None else Some [page - 1, 0, page - 1]),
       filterVisibleNodes = (\<lambda>t. if filter (\<lambda>x. 0 < x) t = [] then None
                                  else Some (filter (\<lambda>x. 0 < x) t)),
       filterByPaintOrder = (\<lambda>t. remdups t),
       filterByBboxPropagation = (\<lambda>t. map Suc t),
       serializeTree = (\<lambda>t opts.
         \<lparr>tree = map (\<lambda>x. char_of (48 + x)) (take opts t),
          selectorMap = map (\<lambda>x. (x, ''#n'')) (take opts t)\<rparr>),
       emptyOptions = 10 \<rparr>"

section \<open>Properties of the selector builder\<close>

lemma indexOf_ge: "indexOf xs v \<ge> -1"
  by (induction xs) (auto simp: Let_def)

lemma indexOf_append: "v \<notin> set xs \<Longrightarrow> indexOf (xs @ v # ys) v = int (length xs)"
  by (induction xs) (auto simp: Let_def)

lemma indexOf_mem: "(indexOf xs v \<noteq> -1) = (v \<in> set xs)"
proof (induction xs)
  case Nil
  show ?case by simp
next
  case (Cons x xs)
  have "indexOf xs v \<ge> -1" by (rule indexOf_ge)
  with Cons show ?case by (auto simp: Let_def)
qed

lemma child_at_parent:
  "child_at (Tree pt pa (l @ t # r), cs) (length l) = (t, Crumb l pt pa r # cs)"
  by (simp add: child_at_def)

lemma fst_child_at: "j < length (tree_children (fst p)) \<Longrightarrow> fst (child_at p j) = tree_children (fst p) ! j"
  by (simp add: child_at_def Let_def)

lemma child_at_inj:
  assumes "i < length (tree_children (fst p))" "j < length (tree_children (fst p))" "child_at p i = child_at p j"
  shows "i = j"
proof -
  from assms(3) have "take i (tree_children (fst p)) = take j (tree_children (fst p))"
    by (simp add: child_at_def Let_def)
  then have "length (take i (tree_children (fst p))) = length (take j (tree_children (fst p)))" by simp
  with assms(1,2) show ?thesis by simp
qed

lemma children_of_split:
  "children_of (Tree pt pa (l @ t # r), cs) =
     map (child_at (Tree pt pa (l @ t # r), cs)) [0 ..< length l]
     @ (t, Crumb l pt pa r # cs)
     # map (child_at (Tree pt pa (l @ t # r), cs)) [Suc (length l) ..< Suc (length l + length r)]"
proof -
  have "[0 ..< length (l @ t # r)] = [0 ..< length l] @ length l # [Suc (length l) ..< Suc (length l + length r)]"
    by (metis (no_types, lifting) length_append length_Cons add_Suc_right le_add1 upt_add_eq_append upt_conv_Cons lessI less_add_Suc1 zero_le)
  then show ?thesis
    by (simp add: children_of_def child_at_parent)
qed

lemma map_fst_children_of: "map fst (children_of p) = tree_children (fst p)"
  by (rule nth_equalityI) (simp_all add: children_of_def fst_child_at)

lemma filter_children_length:
  "length (filter (\<lambda>c. toLowerCase (tagName c) = tag) (children_of p))
     = length (filter (same_tag tag) (tree_children (fst p)))"
proof -
  have "filter (same_tag tag) (map fst (children_of p)) = map fst (filter (\<lambda>c. toLowerCase (tagName c) = tag) (children_of p))"
    by (simp add: filter_map o_def same_tag_def tagName_def)
  then show ?thesis by (metis length_map map_fst_children_of)
qed





lemma length_filter_left:
  "length (filter (\<lambda>c. toLowerCase (tagName c) = tag)
      (map (child_at (Tree pt pa (l @ t # r), cs)) [0 ..< length l]))
   = length (filter (same_tag tag) l)"
proof -
  let ?p = "(Tree pt pa (l @ t # r), cs)"
  have "map fst (map (child_at ?p) [0 ..< length l]) = l"
    by (rule nth_equalityI) (simp_all add: fst_child_at nth_append)
  moreover have "filter (same_tag tag) (map fst (map (child_at ?p) [0 ..< length l]))
     = map fst (filter (\<lambda>c. toLowerCase (tagName c) = tag) (map (child_at ?p) [0 ..< length l]))"
    by (simp add: filter_map o_def same_tag_def tagName_def)
  ultimately show ?thesis by (metis length_map)
qed

lemma self_not_left:
  "(t, Crumb l pt pa r # cs) \<notin> set (map (child_at (Tree pt pa (l @ t # r), cs)) [0 ..< length l])"
proof
  let ?p = "(Tree pt pa (l @ t # r), cs)"
  assume "(t, Crumb l pt pa r # cs) \<in> set (map (child_at ?p) [0 ..< length l])"
  then obtain j where j: "j < length l" "child_at ?p j = (t, Crumb l pt pa r # cs)" by auto
  then have "child_at ?p j = child_at ?p (length l)" by (simp add: child_at_parent)
  with j(1) have "j = length l" by (intro child_at_inj[of j ?p "length l"]) simp_all
  with j(1) show False by simp
qed

lemma indexOf_siblings:
  assumes "toLowerCase (tree_tag t) = tag"
  shows "indexOf (filter (\<lambda>c. toLowerCase (tagName c) = tag) (children_of (Tree pt pa (l @ t # r), cs)))
           (t, Crumb l pt pa r # cs) = int (length (filter (same_tag tag) l))"
proof -
  let ?p = "(Tree pt pa (l @ t # r), cs)"
  let ?el = "(t, Crumb l pt pa r # cs)"
  let ?P = "\<lambda>c. toLowerCase (tagName c) = tag"
  let ?A = "filter ?P (map (child_at ?p) [0 ..< length l])"
  have P: "?P ?el" using assms by (simp add: tagName_def)
  have "filter ?P (children_of ?p) = ?A @ ?el # filter ?P (map (child_at ?p) [Suc (length l) ..< Suc (length l + length r)])"
    using P by (simp add: children_of_split)
  moreover have "?el \<notin> set ?A" using self_not_left[of t l pt pa r cs] by simp
  ultimately have "indexOf (filter ?P (children_of ?p)) ?el = int (length ?A)"
    by (simp add: indexOf_append)
  also have "length ?A = length (filter (same_tag tag) l)" by (rule length_filter_left)
  finally show ?thesis .
qed

lemma path_segment_spec:
  "path_segment (t, c # cs) (Tree (ptag c) (pattrs c) (left c @ t # right c), cs) = spec_segment (t, c # cs)"
proof -
  obtain l pt pa r where c: "c = Crumb l pt pa r" by (cases c)
  let ?tag = "toLowerCase (tree_tag t)"
  let ?p = "(Tree pt pa (l @ t # r), cs)"
  let ?sib = "filter (\<lambda>c. toLowerCase (tagName c) = ?tag) (children_of ?p)"
  have len: "length ?sib = length (filter (same_tag ?tag) (l @ t # r))"
    using filter_children_length[of ?tag ?p] by simp
  have idx: "indexOf ?sib (t, Crumb l pt pa r # cs) = int (length (filter (same_tag ?tag) l))"
    by (rule indexOf_siblings) simp
  have tn: "tagName (t, Crumb l pt pa r # cs) = tree_tag t" by (simp add: tagName_def)
  have "path_segment (t, Crumb l pt pa r # cs) ?p =
          (if length ?sib > 1
           then ?tag @ '':nth-of-type('' @ number_toString (nat (indexOf ?sib (t, Crumb l pt pa r # cs) + 1)) @ '')''
           else ?tag)"
    unfolding path_segment_def Let_def tn ..
  also have "\<dots> = spec_segment (t, Crumb l pt pa r # cs)"
    unfolding len idx by (simp add: Let_def nat_add_distrib del: filter_append filter.simps)
  finally show ?thesis unfolding c by simp
qed

lemma walk_spec: "walk body (t, cs) path = rev (map spec_segment (walked body (t, cs))) @ path"
proof (induction cs arbitrary: t path)
  case Nil
  show ?case by (simp add: walk.simps[of body "(t, [])"] walked_def)
next
  case (Cons c cs)
  show ?case
  proof (cases "Some (t, c # cs) = body")
    case True
    then show ?thesis by (simp add: walk.simps[of body "(t, c # cs)"] walked_def)
  next
    case False
    then show ?thesis
      using Cons[of "Tree (ptag c) (pattrs c) (left c @ t # right c)"]
      by (simp add: walk.simps[of body "(t, c # cs)"] walked_def path_segment_spec del: spec_segment.simps)
  qed
qed




lemma is_css_special_set: "is_css_special c = (c \<in> css_special_set)"
  by (simp add: is_css_special_def css_special_chars_def css_special_set_def backslash_def dquote_def)

lemma escapeSelector_concat: "escapeSelector s = concat (map escape_char s)"
  by (induction s) (simp_all add: is_css_special_set escape_char_def backslash_def)

lemma truthy_iff: "truthy a = (\<exists>v. a = Some v \<and> v \<noteq> [])"
  by (cases a) (simp_all add: truthy_def)

lemma form_tag_iff: "(indexOf form_tags tg \<noteq> -1) = (tg \<in> {''input'', ''select'', ''textarea''})"
  by (simp add: indexOf_mem form_tags_def)

lemma build_selector_id: "elem_id this \<noteq> [] \<Longrightarrow> build_selector body this = ''#'' @ escapeSelector (elem_id this)"
  by (simp add: build_selector_def)

lemma build_selector_testid:
  "elem_id this = [] \<Longrightarrow> getAttribute this ''data-testid'' = Some v \<Longrightarrow> v \<noteq> [] \<Longrightarrow>
   build_selector body this = ''[data-testid='' @ [dquote] @ escapeSelector v @ [dquote] @ '']''"
  by (simp add: build_selector_def truthy_def str_def)

lemma build_selector_name:
  "elem_id this = [] \<Longrightarrow> \<not> truthy (getAttribute this ''data-testid'') \<Longrightarrow>
   toLowerCase (tagName this) \<in> {''input'', ''select'', ''textarea''} \<Longrightarrow>
   getAttribute this ''name'' = Some n \<Longrightarrow> n \<noteq> [] \<Longrightarrow>
   build_selector body this = toLowerCase (tagName this) @ ''[name='' @ [dquote] @ escapeSelector n @ [dquote] @ '']''"
  using form_tag_iff[of "toLowerCase (tagName this)"]
  by (simp add: build_selector_def truthy_def str_def Let_def)

lemma build_selector_path:
  assumes "elem_id this = []" "\<not> truthy (getAttribute this ''data-testid'')"
    "\<not> (toLowerCase (tagName this) \<in> {''input'', ''select'', ''textarea''} \<and> truthy (getAttribute this ''name''))"
  shows "build_selector body this = spec_path_selector body this"
proof -
  have w: "walk body this [] = rev (map spec_segment (walked body this))"
    using walk_spec[of body "fst this" "snd this" "[]"] by simp
  have "(truthy (getAttribute this ''name'') \<and> indexOf form_tags (toLowerCase (tagName this)) \<noteq> -1) = False"
    using assms(3) form_tag_iff[of "toLowerCase (tagName this)"] by blast
  then have "build_selector body this =
      (let path = walk body this [] in
       if length path > 0 then ''body > '' @ join '' > '' path else toLowerCase (tagName this))"
    using assms(1,2) by (simp only: build_selector_def Let_def if_False if_True simp_thms)
  then show ?thesis
    by (simp add: Let_def w spec_path_selector_def)
qed


text \<open>
  C2. The synthesized selector follows a strict priority ladder. A non-empty id gives
  \<open>#\<close> followed by the escaped id. Otherwise a non-empty \<open>data-testid\<close> gives
  the \<open>[data-testid="..."]\<close> form. Otherwise, for a tag that lower-cases to
  \<open>input\<close>, \<open>select\<close> or \<open>textarea\<close> with a non-empty \<open>name\<close>, the result is
  \<open>tag[name="..."]\<close>. Only otherwise is the ancestor-path form produced. In
  particular an element with both an id and a test id yields the id form.
\<close>

theorem selector_priority_ladder:
  "(elem_id this \<noteq> [] \<longrightarrow>
      build_selector body this = ''#'' @ escapeSelector (elem_id this)) \<and>
   (elem_id this = [] \<and> getAttribute this ''data-testid'' = Some v \<and> v \<noteq> [] \<longrightarrow>
      build_selector body this = ''[data-testid='' @ [dquote] @ escapeSelector v @ [dquote] @ '']'') \<and>
   (elem_id this = [] \<and> \<not> truthy (getAttribute this ''data-testid'') \<and>
    toLowerCase (tagName this) \<in> {''input'', ''select'', ''textarea''} \<and>
    getAttribute this ''name'' = Some n \<and> n \<noteq> [] \<longrightarrow>
      build_selector body this =
        toLowerCase (tagName this) @ ''[name='' @ [dquote] @ escapeSelector n @ [dquote] @ '']'') \<and>
   (elem_id this = [] \<and> \<not> truthy (getAttribute this ''data-testid'') \<and>
    \<not> (toLowerCase (tagName this) \<in> {''input'', ''select'', ''textarea''} \<and>
       truthy (getAttribute this ''name'')) \<longrightarrow>
      build_selector body this = spec_path_selector body this) \<and>
   (elem_id this \<noteq> [] \<and> truthy (getAttribute this ''data-testid'') \<longrightarrow>
      build_selector body this = ''#'' @ escapeSelector (elem_id this))"
  using build_selector_id[of this body] build_selector_testid[of this v body]
    build_selector_name[of this n body] build_selector_path[of this body]
  by blast

theorem selector_priority_ladder_witness:
  "build_selector (Some test_body) (test_child 0) = ''#btn1'' \<and>
   truthy (getAttribute (test_child 0) ''data-testid'') \<and>
   build_selector (Some test_body) (test_child 2)
     = ''[data-testid='' @ [CHR 0x22] @ ''submit'' @ [CHR 0x5C] @ '':btn'' @ [CHR 0x22] @ '']'' \<and>
   build_selector (Some test_body) (test_child 1)
     = ''input[name='' @ [CHR 0x22] @ ''user'' @ [CHR 0x5C] @ ''.name'' @ [CHR 0x22] @ '']'' \<and>
   build_selector (Some test_body) (test_child 4) = ''body > div > button:nth-of-type(4)''"
proof -
  have id0: "elem_id (test_child 0) \<noteq> []" by code_simp
  have t0: "truthy (getAttribute (test_child 0) ''data-testid'')" by code_simp
  have "build_selector (Some test_body) (test_child 0)
          = ''#'' @ escapeSelector (elem_id (test_child 0))"
    using selector_priority_ladder[of "test_child 0" "Some test_body"] id0 t0 by blast
  moreover have "''#'' @ escapeSelector (elem_id (test_child 0)) = ''#btn1''" by code_simp
  ultimately have c1: "build_selector (Some test_body) (test_child 0) = ''#btn1''" by simp
  have id2: "elem_id (test_child 2) = []" by code_simp
  have t2: "getAttribute (test_child 2) ''data-testid'' = Some ''submit:btn''" by code_simp
  have "build_selector (Some test_body) (test_child 2)
          = ''[data-testid='' @ [dquote] @ escapeSelector ''submit:btn'' @ [dquote] @ '']''"
    using selector_priority_ladder[of "test_child 2" "Some test_body" "''submit:btn''"] id2 t2
    by blast
  moreover have "''[data-testid='' @ [dquote] @ escapeSelector ''submit:btn'' @ [dquote] @ '']''
      = ''[data-testid='' @ [CHR 0x22] @ ''submit'' @ [CHR 0x5C] @ '':btn'' @ [CHR 0x22] @ '']''"
    by code_simp
  ultimately have c2: "build_selector (Some test_body) (test_child 2)
     = ''[data-testid='' @ [CHR 0x22] @ ''submit'' @ [CHR 0x5C] @ '':btn'' @ [CHR 0x22] @ '']''"
    by simp
  have id1: "elem_id (test_child 1) = []" by code_simp
  have t1: "\<not> truthy (getAttribute (test_child 1) ''data-testid'')" by code_simp
  have g1: "toLowerCase (tagName (test_child 1)) \<in> {''input'', ''select'', ''textarea''}"
    by code_simp
  have n1: "getAttribute (test_child 1) ''name'' = Some ''user.name''" by code_simp
  have "build_selector (Some test_body) (test_child 1)
          = toLowerCase (tagName (test_child 1)) @ ''[name='' @ [dquote]
            @ escapeSelector ''user.name'' @ [dquote] @ '']''"
    using selector_priority_ladder[of "test_child 1" "Some test_body" _ "''user.name''"]
      id1 t1 g1 n1 by blast
  moreover have "toLowerCase (tagName (test_child 1)) @ ''[name='' @ [dquote]
            @ escapeSelector ''user.name'' @ [dquote] @ '']''
      = ''input[name='' @ [CHR 0x22] @ ''user'' @ [CHR 0x5C] @ ''.name'' @ [CHR 0x22] @ '']''"
    by code_simp
  ultimately have c3: "build_selector (Some test_body) (test_child 1)
     = ''input[name='' @ [CHR 0x22] @ ''user'' @ [CHR 0x5C] @ ''.name'' @ [CHR 0x22] @ '']''"
    by simp
  have id4: "elem_id (test_child 4) = []" by code_simp
  have t4: "\<not> truthy (getAttribute (test_child 4) ''data-testid'')" by code_simp
  have g4: "\<not> (toLowerCase (tagName (test_child 4)) \<in> {''input'', ''select'', ''textarea''}
              \<and> truthy (getAttribute (test_child 4) ''name''))"
    by code_simp
  have "build_selector (Some test_body) (test_child 4)
          = spec_path_selector (Some test_body) (test_child 4)"
    using selector_priority_ladder[of "test_child 4" "Some test_body"] id4 t4 g4 by blast
  moreover have "spec_path_selector (Some test_body) (test_child 4)
      = ''body > div > button:nth-of-type(4)''"
    by code_simp
  ultimately have c4: "build_selector (Some test_body) (test_child 4)
      = ''body > div > button:nth-of-type(4)''"
    by simp
  from c1 t0 c2 c3 c4 show ?thesis by blast
qed

text \<open>
  C3. For an element with no id, no \<open>data-testid\<close> and no form-control name, the
  selector is the ancestor path of the specification: the element and its ancestors
  are walked up to, and excluding, the body (the walk also ends, excluding it, at an
  element without a parent element); each level gives \<open>tag:nth-of-type(n)\<close>, with
  \<open>n\<close> its 1-based position among the same-tag children of its parent, when the
  parent has more than one child of that tag, and the bare tag otherwise; the
  segments, outermost first, are joined with \<open>" > "\<close> after the prefix
  \<open>"body > "\<close>; with no segment the bare lower-case tag is returned.
\<close>

theorem path_selector_form:
  assumes "elem_id this = []"
    and "\<not> truthy (getAttribute this ''data-testid'')"
    and "\<not> (toLowerCase (tagName this) \<in> {''input'', ''select'', ''textarea''} \<and>
           truthy (getAttribute this ''name''))"
  shows "build_selector body this = spec_path_selector body this"
  using assms by (rule build_selector_path)

text \<open>
  C4. Escaping works character by character: a character of the CSS special set
  \<open>!"#$%&'()*+,./:;<=>?@[\]^`{|}~\<close> becomes a backslash followed by itself, every
  other character stays as it is; and the id, the test id and the name are each
  interpolated into the selector in this escaped form.
\<close>

theorem escapeSelector_rule:
  "escapeSelector s = concat (map escape_char s) \<and>
   (elem_id this \<noteq> [] \<longrightarrow>
      build_selector body this = ''#'' @ concat (map escape_char (elem_id this))) \<and>
   (elem_id this = [] \<and> getAttribute this ''data-testid'' = Some v \<and> v \<noteq> [] \<longrightarrow>
      build_selector body this =
        ''[data-testid='' @ [CHR 0x22] @ concat (map escape_char v) @ [CHR 0x22] @ '']'') \<and>
   (elem_id this = [] \<and> \<not> truthy (getAttribute this ''data-testid'') \<and>
    toLowerCase (tagName this) \<in> {''input'', ''select'', ''textarea''} \<and>
    getAttribute this ''name'' = Some n \<and> n \<noteq> [] \<longrightarrow>
      build_selector body this =
        toLowerCase (tagName this) @ ''[name='' @ [CHR 0x22] @ concat (map escape_char n)
          @ [CHR 0x22] @ '']'')"
  using build_selector_id[of this body] build_selector_testid[of this v body]
    build_selector_name[of this n body]
  by (simp add: escapeSelector_concat dquote_def)


theorem path_selector_form_witness:
  "elem_id (test_child 3) = [] \<and>
   \<not> truthy (getAttribute (test_child 3) ''data-testid'') \<and>
   \<not> (toLowerCase (tagName (test_child 3)) \<in> {''input'', ''select'', ''textarea''} \<and>
      truthy (getAttribute (test_child 3) ''name'')) \<and>
   build_selector (Some test_body) (test_child 3) = ''body > div > button:nth-of-type(3)'' \<and>
   build_selector (Some test_body) test_body = ''body'' \<and>
   build_selector None (Tree ''BUTTON'' [] [], []) = ''button''"
proof -
  have a: "elem_id (test_child 3) = []" by code_simp
  have b: "\<not> truthy (getAttribute (test_child 3) ''data-testid'')" by code_simp
  have c: "\<not> (toLowerCase (tagName (test_child 3)) \<in> {''input'', ''select'', ''textarea''}
             \<and> truthy (getAttribute (test_child 3) ''name''))"
    by code_simp
  have "build_selector (Some test_body) (test_child 3)
          = spec_path_selector (Some test_body) (test_child 3)"
    using a b c by (rule path_selector_form)
  moreover have "spec_path_selector (Some test_body) (test_child 3)
      = ''body > div > button:nth-of-type(3)''"
    by code_simp
  ultimately have r1: "build_selector (Some test_body) (test_child 3)
      = ''body > div > button:nth-of-type(3)''" by simp
  have r2: "build_selector (Some test_body) test_body = ''body''" by code_simp
  have r3: "build_selector None (Tree ''BUTTON'' [] [], []) = ''button''" by code_simp
  from a b c r1 r2 r3 show ?thesis by blast
qed

theorem escapeSelector_rule_witness:
  "build_selector (Some test_body) (test_child 2)
     = ''[data-testid='' @ [CHR 0x22] @ ''submit'' @ [CHR 0x5C] @ '':btn'' @ [CHR 0x22] @ '']'' \<and>
   escapeSelector ''a.b-c_d e#f'' = ''a'' @ [CHR 0x5C] @ ''.b-c_d e'' @ [CHR 0x5C] @ ''#f''"
proof -
  have id2: "elem_id (test_child 2) = []" by code_simp
  have t2: "getAttribute (test_child 2) ''data-testid'' = Some ''submit:btn''" by code_simp
  have "build_selector (Some test_body) (test_child 2)
          = ''[data-testid='' @ [CHR 0x22] @ concat (map escape_char ''submit:btn'')
            @ [CHR 0x22] @ '']''"
    using escapeSelector_rule[of _ "test_child 2" "Some test_body" "''submit:btn''"] id2 t2
    by blast
  moreover have "concat (map escape_char ''submit:btn'') = ''submit'' @ [CHR 0x5C] @ '':btn''"
    by (simp add: escape_char_def css_special_set_def)
  ultimately have r1: "build_selector (Some test_body) (test_child 2)
     = ''[data-testid='' @ [CHR 0x22] @ ''submit'' @ [CHR 0x5C] @ '':btn'' @ [CHR 0x22] @ '']''"
    by simp
  have r2: "escapeSelector ''a.b-c_d e#f'' = ''a'' @ [CHR 0x5C] @ ''.b-c_d e'' @ [CHR 0x5C] @ ''#f''"
    by code_simp
  from r1 r2 show ?thesis by blast
qed

section \<open>Properties of the identity operations\<close>

lemma resolve_entry_map:
  "fst (resolve_entry C s root (i, sel) (m, e)) =
     (case lookup_handle C s root sel e of None \<Rightarrow> m | Some b \<Rightarrow> AList.update i b m)"
  by (auto simp: resolve_entry_def lookup_handle_def split: prod.splits sum.splits)

lemma resolve_loop_append:
  "resolve_loop C s root (xs @ ys) me = resolve_loop C s root ys (resolve_loop C s root xs me)"
  by (induction xs arbitrary: me) simp_all

lemma resolve_loop_keys:
  "fst ` set (fst (resolve_loop C s root sm (m, e))) \<subseteq> fst ` set m \<union> fst ` set sm"
proof (induction sm arbitrary: m e)
  case Nil
  show ?case by simp
next
  case (Cons entry rest)
  obtain i sel where entry: "entry = (i, sel)" by (cases entry)
  obtain m' e' where step: "resolve_entry C s root (i, sel) (m, e) = (m', e')"
    by (cases "resolve_entry C s root (i, sel) (m, e)")
  have "fst ` set m' \<subseteq> insert i (fst ` set m)"
    using resolve_entry_map[of C s root i sel m e] step
    by (auto simp: dom_update split: option.splits)
  with Cons.IH[of m' e'] show ?case by (auto simp: entry step)
qed

lemma resolve_loop_other:
  "i \<notin> fst ` set sm \<Longrightarrow> map_of (fst (resolve_loop C s root sm (m, e))) i = map_of m i"
proof (induction sm arbitrary: m e)
  case Nil
  show ?case by simp
next
  case (Cons entry rest)
  obtain j sel where entry: "entry = (j, sel)" by (cases entry)
  obtain m' e' where step: "resolve_entry C s root (j, sel) (m, e) = (m', e')"
    by (cases "resolve_entry C s root (j, sel) (m, e)")
  from Cons.prems entry have ne: "j \<noteq> i" and rest: "i \<notin> fst ` set rest" by auto
  have "map_of m' i = map_of m i"
    using resolve_entry_map[of C s root j sel m e] step ne
    by (auto simp: update_conv' split: option.splits)
  with Cons.IH[OF rest, of m' e'] show ?case by (simp add: entry step)
qed

lemma resolve_loop_at:
  assumes d: "distinct (map fst (pre @ (i, sel) # post))" and m0: "map_of m0 i = None"
  shows "map_of (fst (resolve_loop C s root (pre @ (i, sel) # post) (m0, e))) i
           = lookup_handle C s root sel (snd (resolve_loop C s root pre (m0, e)))"
proof -
  obtain m1 e1 where pre: "resolve_loop C s root pre (m0, e) = (m1, e1)"
    by (cases "resolve_loop C s root pre (m0, e)")
  obtain m2 e2 where step: "resolve_entry C s root (i, sel) (m1, e1) = (m2, e2)"
    by (cases "resolve_entry C s root (i, sel) (m1, e1)")
  from d have npre: "i \<notin> fst ` set pre" and npost: "i \<notin> fst ` set post" by auto
  have "map_of m1 i = None"
    using resolve_loop_other[OF npre, of C s root m0 e] pre m0 by simp
  then have m2: "map_of m2 i = lookup_handle C s root sel e1"
    using resolve_entry_map[of C s root i sel m1 e1] step
    by (cases "lookup_handle C s root sel e1") (simp_all add: update_conv')
  have "resolve_loop C s root (pre @ (i, sel) # post) (m0, e)
          = resolve_loop C s root post (m2, e2)"
    by (simp add: resolve_loop_append pre step)
  then show ?thesis
    using resolve_loop_other[OF npost, of C s root m2 e2] m2 pre by simp
qed

lemma finally_detach_ok:
  "fst (detach C s (snd re)) = Inr () \<Longrightarrow> fst (finally_detach C s re) = fst re"
  by (auto simp: finally_detach_def split: prod.splits sum.splits)

lemma finally_detach_isl:
  "isl (fst re) \<Longrightarrow> isl (fst (finally_detach C s re))"
  by (auto simp: finally_detach_def split: prod.splits sum.splits)

lemma finally_detach_fst:
  "fst (finally_detach C s re)
     = (case fst (detach C s (snd re)) of Inl err \<Rightarrow> Inl err | Inr u \<Rightarrow> fst re)"
  by (auto simp: finally_detach_def split: prod.splits sum.splits)

lemma attach_rejected:
  "newCDPSession C e = (Inl err, e0) \<Longrightarrow>
   resolveBackendIds C sm e = (Inl err, e0) \<and>
   resolveSelectorFromBackendId C h e = (Inl err, e0) \<and>
   isBackendNodeIdValid C h e = (Inl err, e0)"
  by (simp add: resolveBackendIds_def resolveSelectorFromBackendId_def isBackendNodeIdValid_def)

lemma detach_rejected:
  "detach C s (snd re) = (Inl err, e') \<Longrightarrow> fst (finally_detach C s re) = Inl err"
  by (simp add: finally_detach_def)

text \<open>
  C1. Once the session is attached and the document root obtained (and the final
  detach is not rejected), \<open>resolveBackendIds\<close> returns a map for every selector
  map, whatever the individual queries do. Its keys are among the keys of the input.
  Each entry is resolved on its own, at its turn: whatever happened to the entries
  before it, the result holds for its index exactly what the engine makes of its
  selector in the state the earlier entries left: the handle when the selector
  resolves, and no entry at all (not a null one) when the query is rejected,
  matches nothing, or the node cannot be described. If no entry resolves at its
  turn, in particular for the empty input, the result is the empty map.
\<close>

theorem resolveBackendIds_partial_failure:
  assumes acquired: "newCDPSession C e = (Inr s, e0)"
      and rooted: "getDocument C s 0 e0 = (Inr root, e1)"
      and released: "fst (detach C s (snd (resolve_loop C s root sm ([], e1)))) = Inr ()"
      and keys: "distinct (map fst sm)"
  shows "\<exists>m. fst (resolveBackendIds C sm e) = Inr m \<and>
           fst ` set m \<subseteq> fst ` set sm \<and>
           (\<forall>pre i sel post. sm = pre @ (i, sel) # post \<longrightarrow>
              map_of m i = lookup_handle C s root sel (snd (resolve_loop C s root pre ([], e1)))) \<and>
           ((\<forall>pre i sel post. sm = pre @ (i, sel) # post \<longrightarrow>
               lookup_handle C s root sel (snd (resolve_loop C s root pre ([], e1))) = None)
              \<longrightarrow> m = [])"
proof -
  let ?loop = "resolve_loop C s root sm ([], e1)"
  let ?m = "fst ?loop"
  have "resolveBackendIds C sm e = finally_detach C s (Inr ?m, snd ?loop)"
    by (simp add: resolveBackendIds_def acquired rooted split: prod.splits)
  then have res: "fst (resolveBackendIds C sm e) = Inr ?m"
    using released by (simp add: finally_detach_ok)
  have sub: "fst ` set ?m \<subseteq> fst ` set sm"
    using resolve_loop_keys[of C s root sm "[]" e1] by simp
  have each: "\<forall>pre i sel post. sm = pre @ (i, sel) # post \<longrightarrow>
      map_of ?m i = lookup_handle C s root sel (snd (resolve_loop C s root pre ([], e1)))"
  proof (intro allI impI)
    fix pre i sel post
    assume sm: "sm = pre @ (i, sel) # post"
    from keys sm have "distinct (map fst (pre @ (i, sel) # post))" by simp
    then show "map_of ?m i = lookup_handle C s root sel (snd (resolve_loop C s root pre ([], e1)))"
      unfolding sm by (rule resolve_loop_at) simp
  qed
  have empty: "(\<forall>pre i sel post. sm = pre @ (i, sel) # post \<longrightarrow>
               lookup_handle C s root sel (snd (resolve_loop C s root pre ([], e1))) = None)
      \<longrightarrow> ?m = []"
  proof
    assume none: "\<forall>pre i sel post. sm = pre @ (i, sel) # post \<longrightarrow>
               lookup_handle C s root sel (snd (resolve_loop C s root pre ([], e1))) = None"
    show "?m = []"
    proof (rule ccontr)
      assume "?m \<noteq> []"
      then obtain k v where kv: "(k, v) \<in> set ?m" by (cases ?m) auto
      then have km: "k \<in> fst ` set ?m" by force
      with sub obtain sel where "(k, sel) \<in> set sm" by auto
      then obtain pre post where sm: "sm = pre @ (k, sel) # post"
        by (auto simp: in_set_conv_decomp)
      from each sm none have "map_of ?m k = None" by metis
      then have "k \<notin> fst ` set ?m" by (simp add: map_of_eq_None_iff)
      with km show False by simp
    qed
  qed
  show ?thesis
    by (rule exI[of _ ?m]) (intro conjI res sub each empty)
qed

theorem resolveBackendIds_partial_failure_witness:
  "newCDPSession flaky_cdp 0 = (Inr 7, 1) \<and>
   getDocument flaky_cdp 7 0 1 = (Inr 1, 2) \<and>
   fst (detach flaky_cdp 7 (snd (resolve_loop flaky_cdp 7 1 test_selectorMap ([], 2)))) = Inr () \<and>
   distinct (map fst test_selectorMap) \<and>
   lookup_handle flaky_cdp 7 1 ''#btn1'' (snd (resolve_loop flaky_cdp 7 1 [] ([], 2))) = None \<and>
   lookup_handle flaky_cdp 7 1 ''#btn1''
     (snd (resolve_loop flaky_cdp 7 1 [(1, ''#btn1''), (2, ''#nonexistent''), (3, ''::'')] ([], 2)))
     = Some 12 \<and>
   (\<exists>m. fst (resolveBackendIds flaky_cdp test_selectorMap 0) = Inr m \<and>
        map_of m 1 = None \<and> map_of m 2 = None \<and> map_of m 3 = None \<and>
        map_of m 4 = Some 12) \<and>
   fst (resolveBackendIds flaky_cdp test_selectorMap 0) = Inr [(4, 12)] \<and>
   fst (resolveBackendIds test_cdp test_selectorMap 0) = Inr [(1, 12), (4, 12)] \<and>
   fst (resolveBackendIds flaky_cdp [] 0) = Inr []"
proof -
  have a: "newCDPSession flaky_cdp 0 = (Inr 7, 1)"
    by (simp add: flaky_cdp_def test_cdp_def)
  have b: "getDocument flaky_cdp 7 0 1 = (Inr 1, 2)"
    by (simp add: flaky_cdp_def test_cdp_def)
  have c: "fst (detach flaky_cdp 7 (snd (resolve_loop flaky_cdp 7 1 test_selectorMap ([], 2))))
             = Inr ()"
    by (simp add: flaky_cdp_def test_cdp_def)
  have c0: "fst (detach flaky_cdp 7 (snd (resolve_loop flaky_cdp 7 1 [] ([], 2)))) = Inr ()"
    by (simp add: flaky_cdp_def test_cdp_def)
  have d: "distinct (map fst test_selectorMap)"
    by (simp add: test_selectorMap_def)
  have d0: "distinct (map fst ([] :: (nat \<times> string) list))" by simp
  have l1: "lookup_handle flaky_cdp 7 1 ''#btn1'' (snd (resolve_loop flaky_cdp 7 1 [] ([], 2)))
              = None"
    by code_simp
  have l2: "lookup_handle flaky_cdp 7 1 ''#nonexistent''
              (snd (resolve_loop flaky_cdp 7 1 [(1, ''#btn1'')] ([], 2))) = None"
    by code_simp
  have l3: "lookup_handle flaky_cdp 7 1 ''::''
              (snd (resolve_loop flaky_cdp 7 1 [(1, ''#btn1''), (2, ''#nonexistent'')] ([], 2)))
              = None"
    by code_simp
  have l4: "lookup_handle flaky_cdp 7 1 ''#btn1''
     (snd (resolve_loop flaky_cdp 7 1 [(1, ''#btn1''), (2, ''#nonexistent''), (3, ''::'')] ([], 2)))
     = Some 12"
    by code_simp
  have s1: "test_selectorMap = [] @ (1, ''#btn1'') # [(2, ''#nonexistent''), (3, ''::''), (4, ''#btn1'')]"
    and s2: "test_selectorMap = [(1, ''#btn1'')] @ (2, ''#nonexistent'') # [(3, ''::''), (4, ''#btn1'')]"
    and s3: "test_selectorMap = [(1, ''#btn1''), (2, ''#nonexistent'')] @ (3, ''::'') # [(4, ''#btn1'')]"
    and s4: "test_selectorMap = [(1, ''#btn1''), (2, ''#nonexistent''), (3, ''::'')] @ (4, ''#btn1'') # []"
    by (simp_all add: test_selectorMap_def)
  from resolveBackendIds_partial_failure[OF a b c d]
  obtain m where m: "fst (resolveBackendIds flaky_cdp test_selectorMap 0) = Inr m"
    and each: "\<forall>pre i sel post. test_selectorMap = pre @ (i, sel) # post \<longrightarrow>
      map_of m i = lookup_handle flaky_cdp 7 1 sel (snd (resolve_loop flaky_cdp 7 1 pre ([], 2)))"
    by blast
  have m1: "map_of m 1 = None" using each[rule_format, OF s1] l1 by simp
  have m2: "map_of m 2 = None" using each[rule_format, OF s2] l2 by simp
  have m3: "map_of m 3 = None" using each[rule_format, OF s3] l3 by simp
  have m4: "map_of m 4 = Some 12" using each[rule_format, OF s4] l4 by simp
  from m m1 m2 m3 m4
  have ex: "\<exists>m. fst (resolveBackendIds flaky_cdp test_selectorMap 0) = Inr m \<and>
        map_of m 1 = None \<and> map_of m 2 = None \<and> map_of m 3 = None \<and>
        map_of m 4 = Some 12"
    by blast
  have conc: "fst (resolveBackendIds flaky_cdp test_selectorMap 0) = Inr [(4, 12)]"
    by code_simp
  have conc': "fst (resolveBackendIds test_cdp test_selectorMap 0) = Inr [(1, 12), (4, 12)]"
    by code_simp
  from resolveBackendIds_partial_failure[OF a b c0 d0]
  have emp: "fst (resolveBackendIds flaky_cdp [] 0) = Inr []"
    by auto
  from a b c d l1 l4 ex conc conc' emp show ?thesis by blast
qed

text \<open>
  C5 as stated, that \<open>isBackendNodeIdValid\<close> always returns a boolean and never
  raises, does not hold: on a closed page the attachment is rejected before the
  \<open>try\<close> block and the call raises, and when the detach in the \<open>finally\<close> block is
  rejected the call raises although the rejected resolution had already been
  turned into \<open>false\<close>.
\<close>

theorem isBackendNodeIdValid_can_raise:
  "fst (isBackendNodeIdValid closed_cdp 12 0) = Inl (Error ''Target closed'') \<and>
   fst (isBackendNodeIdValid stuck_cdp 999999999 0) = Inl (Error ''detach failed'')"
  by code_simp

text \<open>
  C5, as the code has it. \<open>isBackendNodeIdValid\<close> never raises on account of the
  handle. If the session cannot be attached the call raises that rejection.
  Otherwise it asks the engine to resolve the handle and then to detach; if the
  detach is rejected the call raises that rejection, and if not it returns a
  boolean: \<open>true\<close> exactly when the engine answered the resolution (which it does
  for a node it still knows, attached to the document or not) and \<open>false\<close> for
  every rejected resolution.
\<close>

theorem isBackendNodeIdValid_outcome:
  "(\<forall>err e0. newCDPSession C e = (Inl err, e0) \<longrightarrow>
      fst (isBackendNodeIdValid C backendNodeId e) = Inl err) \<and>
   (\<forall>s e0 r e1. newCDPSession C e = (Inr s, e0) \<and>
      resolveNode C s backendNodeId None e0 = (r, e1) \<longrightarrow>
      fst (isBackendNodeIdValid C backendNodeId e)
        = (case fst (detach C s e1) of Inl err \<Rightarrow> Inl err | Inr u \<Rightarrow> Inr (\<not> isl r)))"
proof (intro conjI allI impI)
  fix err e0
  assume "newCDPSession C e = (Inl err, e0)"
  then show "fst (isBackendNodeIdValid C backendNodeId e) = Inl err"
    by (simp add: isBackendNodeIdValid_def)
next
  fix s e0 r e1
  assume "newCDPSession C e = (Inr s, e0) \<and> resolveNode C s backendNodeId None e0 = (r, e1)"
  then show "fst (isBackendNodeIdValid C backendNodeId e)
        = (case fst (detach C s e1) of Inl err \<Rightarrow> Inl err | Inr u \<Rightarrow> Inr (\<not> isl r))"
    by (cases r) (auto simp: isBackendNodeIdValid_def finally_detach_fst split: sum.splits)
qed

theorem isBackendNodeIdValid_outcome_witness:
  "newCDPSession test_cdp 0 = (Inr 7, 1) \<and>
   resolveNode test_cdp 7 12 None 1 = (Inr (Some ''obj-12''), 2) \<and>
   fst (detach test_cdp 7 2) = Inr () \<and>
   fst (isBackendNodeIdValid test_cdp 12 0) = Inr True \<and>
   resolveNode test_cdp 7 999999999 None 1 = (Inl (Error ''No node with given id found''), 2) \<and>
   fst (isBackendNodeIdValid test_cdp 999999999 0) = Inr False \<and>
   newCDPSession closed_cdp 0 = (Inl (Error ''Target closed''), 1) \<and>
   fst (isBackendNodeIdValid closed_cdp 999999999 0) = Inl (Error ''Target closed'') \<and>
   newCDPSession stuck_cdp 0 = (Inr 7, 1) \<and>
   resolveNode stuck_cdp 7 12 None 1 = (Inr (Some ''obj-12''), 2) \<and>
   fst (detach stuck_cdp 7 2) = Inl (Error ''detach failed'') \<and>
   fst (isBackendNodeIdValid stuck_cdp 12 0) = Inl (Error ''detach failed'')"
proof -
  have a: "newCDPSession test_cdp 0 = (Inr 7, 1)" by (simp add: test_cdp_def)
  have r1: "resolveNode test_cdp 7 12 None 1 = (Inr (Some ''obj-12''), 2)"
    by (simp add: test_cdp_def)
  have r2: "resolveNode test_cdp 7 999999999 None 1
              = (Inl (Error ''No node with given id found''), 2)"
    by (simp add: test_cdp_def)
  have c: "fst (detach test_cdp 7 2) = Inr ()" by (simp add: test_cdp_def)
  have v1: "fst (isBackendNodeIdValid test_cdp 12 0) = Inr True"
    using isBackendNodeIdValid_outcome[of test_cdp 0 12] a r1 c by simp
  have v2: "fst (isBackendNodeIdValid test_cdp 999999999 0) = Inr False"
    using isBackendNodeIdValid_outcome[of test_cdp 0 999999999] a r2 c by simp
  have a': "newCDPSession closed_cdp 0 = (Inl (Error ''Target closed''), 1)"
    by (simp add: closed_cdp_def test_cdp_def)
  have v3: "fst (isBackendNodeIdValid closed_cdp 999999999 0) = Inl (Error ''Target closed'')"
    using isBackendNodeIdValid_outcome[of closed_cdp 0 999999999] a' by simp
  have a'': "newCDPSession stuck_cdp 0 = (Inr 7, 1)" by (simp add: stuck_cdp_def test_cdp_def)
  have r4: "resolveNode stuck_cdp 7 12 None 1 = (Inr (Some ''obj-12''), 2)"
    by (simp add: stuck_cdp_def test_cdp_def)
  have c4: "fst (detach stuck_cdp 7 2) = Inl (Error ''detach failed'')"
    by (simp add: stuck_cdp_def test_cdp_def)
  have v4: "fst (isBackendNodeIdValid stuck_cdp 12 0) = Inl (Error ''detach failed'')"
    using isBackendNodeIdValid_outcome[of stuck_cdp 0 12] a'' r4 c4 by simp
  from a r1 c v1 r2 v2 a' v3 a'' r4 c4 v4 show ?thesis by blast
qed

text \<open>
  C6. \<open>resolveSelectorFromBackendId\<close> raises whenever, with the session attached,
  the handle does not resolve to an object (the resolution is rejected or the object
  has no object id) or the injected synthesis function fails (the call is rejected or
  reports exception details): the call ends in an error for its caller, never in a
  value.
\<close>

theorem resolveSelectorFromBackendId_raises:
  assumes acquired: "newCDPSession C e = (Inr s, e0)"
      and failing: "handle_unresolvable C s backendNodeId e0 \<or>
                    (\<exists>objectId e1. resolveNode C s backendNodeId (Some objectGroup) e0
                                       = (Inr (Some objectId), e1)
                                   \<and> objectId \<noteq> [] \<and> synthesis_fails C s objectId e1)"
  shows "\<exists>err. fst (resolveSelectorFromBackendId C backendNodeId e) = Inl err"
proof -
  obtain r e1 where rn: "resolveNode C s backendNodeId (Some objectGroup) e0 = (r, e1)"
    by (cases "resolveNode C s backendNodeId (Some objectGroup) e0")
  have "isl (fst (resolveSelectorFromBackendId C backendNodeId e))"
  proof (cases r)
    case (Inl err)
    show ?thesis
      unfolding resolveSelectorFromBackendId_def acquired prod.case sum.case
      by (rule finally_detach_isl) (simp add: rn Inl)
  next
    case (Inr objectId)
    show ?thesis
    proof (cases "truthy objectId")
      case False
      show ?thesis
        unfolding resolveSelectorFromBackendId_def acquired prod.case sum.case
        by (rule finally_detach_isl) (simp add: rn Inr False)
    next
      case True
      then obtain oid where oid: "objectId = Some oid" "oid \<noteq> []"
        by (cases objectId) (simp_all add: truthy_def)
      from failing rn Inr True oid have sf: "synthesis_fails C s oid e1"
        by (auto simp: handle_unresolvable_def)
      obtain cr e2 where cf: "callFunctionOn C s oid build_selector e1 = (cr, e2)"
        by (cases "callFunctionOn C s oid build_selector e1")
      obtain rr e3 where rl: "releaseObjectGroup C s objectGroup e2 = (rr, e3)"
        by (cases "releaseObjectGroup C s objectGroup e2")
      have so: "str objectId = oid" by (simp add: oid str_def)
      from sf cf have bad: "isl cr \<or> (\<exists>res txt. cr = Inr res \<and> exceptionDetails res = Some txt)"
        by (cases cr) (auto simp: synthesis_fails_def)
      show ?thesis
        unfolding resolveSelectorFromBackendId_def acquired prod.case sum.case
        by (rule finally_detach_isl)
           (use bad in \<open>cases cr; cases rr; auto simp: rn Inr True so cf rl\<close>)
    qed
  qed
  then show ?thesis by (cases "fst (resolveSelectorFromBackendId C backendNodeId e)") auto
qed

theorem resolveSelectorFromBackendId_raises_witness:
  "newCDPSession test_cdp 0 = (Inr 7, 1) \<and>
   handle_unresolvable test_cdp 7 999999999 1 \<and>
   (\<exists>err. fst (resolveSelectorFromBackendId test_cdp 999999999 0) = Inl err) \<and>
   handle_unresolvable test_cdp 7 14 1 \<and>
   fst (resolveSelectorFromBackendId test_cdp 14 0)
     = Inl (Error ''Could not resolve node to object'') \<and>
   resolveNode test_cdp 7 13 (Some objectGroup) 1 = (Inr (Some ''obj-13''), 2) \<and>
   synthesis_fails test_cdp 7 ''obj-13'' 2 \<and>
   (\<exists>err. fst (resolveSelectorFromBackendId test_cdp 13 0) = Inl err) \<and>
   fst (resolveSelectorFromBackendId test_cdp 13 0)
     = Inl (Error ''Failed to build selector: Uncaught'') \<and>
   fst (resolveSelectorFromBackendId test_cdp 12 0) = Inr ''#btn1''"
proof -
  have a: "newCDPSession test_cdp 0 = (Inr 7, 1)"
    by (simp add: test_cdp_def)
  have u1: "handle_unresolvable test_cdp 7 999999999 1"
    by (simp add: handle_unresolvable_def test_cdp_def)
  have u2: "handle_unresolvable test_cdp 7 14 1"
    by (simp add: handle_unresolvable_def test_cdp_def truthy_def)
  have r3: "resolveNode test_cdp 7 13 (Some objectGroup) 1 = (Inr (Some ''obj-13''), 2)"
    by (simp add: test_cdp_def)
  have f3: "synthesis_fails test_cdp 7 ''obj-13'' 2"
    by (simp add: synthesis_fails_def test_cdp_def)
  have e1: "\<exists>err. fst (resolveSelectorFromBackendId test_cdp 999999999 0) = Inl err"
    using u1 by (intro resolveSelectorFromBackendId_raises[OF a]) simp
  have e2: "\<exists>err. fst (resolveSelectorFromBackendId test_cdp 14 0) = Inl err"
    using u2 by (intro resolveSelectorFromBackendId_raises[OF a]) simp
  have e3: "\<exists>err. fst (resolveSelectorFromBackendId test_cdp 13 0) = Inl err"
    using r3 f3 by (intro resolveSelectorFromBackendId_raises[OF a]) simp
  have v2: "fst (resolveSelectorFromBackendId test_cdp 14 0)
              = Inl (Error ''Could not resolve node to object'')"
    by code_simp
  have v3: "fst (resolveSelectorFromBackendId test_cdp 13 0)
              = Inl (Error ''Failed to build selector: Uncaught'')"
    by code_simp
  have v4: "fst (resolveSelectorFromBackendId test_cdp 12 0) = Inr ''#btn1''"
    by code_simp
  from a u1 e1 u2 v2 r3 f3 e3 v3 v4 show ?thesis by blast
qed

lemma logged_eq: "logged ev reply (e, lg) = (fst (reply e), (snd (reply e), lg @ [ev]))"
  by (simp add: logged_def split: prod.splits)

lemma traced_newCDPSession:
  "newCDPSession (traced C) (e, lg) =
     (case newCDPSession C e of
        (Inl err, e') \<Rightarrow> (Inl err, (e', lg))
      | (Inr s, e') \<Rightarrow> (Inr s, (e', lg @ [Attach s])))"
  by (simp add: traced_def split: prod.splits sum.splits)

lemma traced_detach:
  "detach (traced C) s (e, lg) =
     (case detach C s e of
        (Inl err, e') \<Rightarrow> (Inl err, (e', lg @ [DetachRejected s]))
      | (Inr u, e') \<Rightarrow> (Inr u, (e', lg @ [Detach s])))"
  by (simp add: traced_def split: prod.splits sum.splits)

lemma traced_sends:
  "getDocument (traced C) s depth (e, lg)
     = (fst (getDocument C s depth e),
        (snd (getDocument C s depth e), lg @ [Send s (DOM_getDocument depth)]))"
  "querySelector (traced C) s root sel (e, lg)
     = (fst (querySelector C s root sel e),
        (snd (querySelector C s root sel e), lg @ [Send s (DOM_querySelector root sel)]))"
  "describeNode (traced C) s n (e, lg)
     = (fst (describeNode C s n e),
        (snd (describeNode C s n e), lg @ [Send s (DOM_describeNode n)]))"
  "resolveNode (traced C) s h grp (e, lg)
     = (fst (resolveNode C s h grp e),
        (snd (resolveNode C s h grp e), lg @ [Send s (DOM_resolveNode h grp)]))"
  "callFunctionOn (traced C) s oid f (e, lg)
     = (fst (callFunctionOn C s oid f e),
        (snd (callFunctionOn C s oid f e), lg @ [Send s (Runtime_callFunctionOn oid)]))"
  "releaseObjectGroup (traced C) s g (e, lg)
     = (fst (releaseObjectGroup C s g e),
        (snd (releaseObjectGroup C s g e), lg @ [Send s (Runtime_releaseObjectGroup g)]))"
  by (simp_all add: traced_def logged_eq)

lemma traced_finally:
  "finally_detach (traced C) s (r, (e, lg)) =
     (fst (finally_detach C s (r, e)),
      (snd (finally_detach C s (r, e)),
       lg @ [if isl (fst (detach C s e)) then DetachRejected s else Detach s]))"
  by (auto simp: finally_detach_def traced_detach split: prod.splits sum.splits)

lemma traced_entry:
  "\<exists>evs. resolve_entry (traced C) s root (i, sel) (m, (e, lg))
          = (fst (resolve_entry C s root (i, sel) (m, e)),
             (snd (resolve_entry C s root (i, sel) (m, e)),
              lg @ Send s (DOM_querySelector root sel) # evs))
         \<and> list_all (sent_on s) evs \<and> filter is_query evs = []"
proof -
  obtain q e1 where q: "querySelector C s root sel e = (q, e1)"
    by (cases "querySelector C s root sel e")
  show ?thesis
  proof (cases q)
    case (Inl err)
    then show ?thesis using q by (simp add: resolve_entry_def traced_sends)
  next
    case (Inr nodeId)
    show ?thesis
    proof (cases "nodeId = 0")
      case True
      then show ?thesis using q Inr by (simp add: resolve_entry_def traced_sends)
    next
      case False
      obtain dn e2 where dn: "describeNode C s nodeId e1 = (dn, e2)"
        by (cases "describeNode C s nodeId e1")
      show ?thesis
        using q Inr False dn
        by (cases dn) (simp_all add: resolve_entry_def traced_sends)
    qed
  qed
qed

lemma traced_loop:
  "\<exists>evs. resolve_loop (traced C) s root sm (m, (e, lg))
          = (fst (resolve_loop C s root sm (m, e)),
             (snd (resolve_loop C s root sm (m, e)), lg @ evs))
         \<and> list_all (sent_on s) evs
         \<and> filter is_query evs = map (\<lambda>entry. Send s (DOM_querySelector root (snd entry))) sm"
proof (induction sm arbitrary: m e lg)
  case Nil
  show ?case by simp
next
  case (Cons entry rest)
  obtain i sel where entry: "entry = (i, sel)" by (cases entry)
  obtain m' e' where step: "resolve_entry C s root (i, sel) (m, e) = (m', e')"
    by (cases "resolve_entry C s root (i, sel) (m, e)")
  from traced_entry[of C s root i sel m e lg] step
  obtain evs1 where e1:
    "resolve_entry (traced C) s root (i, sel) (m, (e, lg))
       = (m', (e', lg @ Send s (DOM_querySelector root sel) # evs1))"
    "list_all (sent_on s) evs1" "filter is_query evs1 = []" by auto
  from Cons.IH[of m' e' "lg @ Send s (DOM_querySelector root sel) # evs1"]
  obtain evs2 where e2:
    "resolve_loop (traced C) s root rest (m', (e', lg @ Send s (DOM_querySelector root sel) # evs1))
       = (fst (resolve_loop C s root rest (m', e')),
          (snd (resolve_loop C s root rest (m', e')),
           (lg @ Send s (DOM_querySelector root sel) # evs1) @ evs2))"
    "list_all (sent_on s) evs2"
    "filter is_query evs2 = map (\<lambda>entry. Send s (DOM_querySelector root (snd entry))) rest"
    by blast
  show ?case
    by (rule exI[of _ "Send s (DOM_querySelector root sel) # evs1 @ evs2"])
       (simp add: entry step e1 e2)
qed

lemma scoped_bracket:
  "list_all (sent_on s) mid \<Longrightarrow> ev = Detach s \<or> ev = DetachRejected s \<Longrightarrow>
   scoped (Attach s # mid @ [ev])"
  by auto

lemma finally_scoped:
  assumes mid: "list_all (sent_on s) mid"
  shows "\<exists>ev. finally_detach (traced C) s (rb, (eb, lg @ Attach s # mid))
            = (fst (finally_detach C s (rb, eb)),
               (snd (finally_detach C s (rb, eb)), lg @ Attach s # mid @ [ev]))
          \<and> scoped (Attach s # mid @ [ev])
          \<and> (ev = Detach s \<or> ev = DetachRejected s \<and> isl (fst (finally_detach C s (rb, eb))))"
proof (cases "fst (detach C s eb)")
  case (Inl err)
  then show ?thesis
    using mid
    by (intro exI[of _ "DetachRejected s"]) (simp add: traced_finally finally_detach_fst)
next
  case (Inr u)
  then show ?thesis
    using mid
    by (intro exI[of _ "Detach s"]) (simp add: traced_finally)
qed

lemma resolveBackendIds_requests:
  "\<exists>tr. resolveBackendIds (traced C) sm (e, lg)
          = (fst (resolveBackendIds C sm e), (snd (resolveBackendIds C sm e), lg @ tr)) \<and>
        scoped tr \<and>
        (tr = [] \<longleftrightarrow> isl (fst (newCDPSession C e))) \<and>
        (\<forall>s e0. newCDPSession C e = (Inr s, e0) \<longrightarrow>
           hd tr = Attach s \<and>
           (last tr = Detach s \<or>
            last tr = DetachRejected s \<and> isl (fst (resolveBackendIds C sm e))) \<and>
           (\<forall>root e1. getDocument C s 0 e0 = (Inr root, e1) \<longrightarrow>
              filter is_query tr = map (\<lambda>entry. Send s (DOM_querySelector root (snd entry))) sm))"
proof -
  obtain r e0 where a: "newCDPSession C e = (r, e0)" by (cases "newCDPSession C e")
  show ?thesis
  proof (cases r)
    case (Inl err)
    then show ?thesis
      using a by (intro exI[of _ "[]"]) (simp add: resolveBackendIds_def traced_newCDPSession)
  next
    case (Inr s)
    obtain d e1 where g: "getDocument C s 0 e0 = (d, e1)" by (cases "getDocument C s 0 e0")
    have "\<exists>rb eb mid. resolveBackendIds C sm e = finally_detach C s (rb, eb) \<and>
            resolveBackendIds (traced C) sm (e, lg)
              = finally_detach (traced C) s (rb, (eb, lg @ Attach s # mid)) \<and>
            list_all (sent_on s) mid \<and>
            (\<forall>root. d = Inr root \<longrightarrow>
               filter is_query mid = map (\<lambda>entry. Send s (DOM_querySelector root (snd entry))) sm)"
    proof (cases d)
      case (Inl err)
      show ?thesis
        by (intro exI[of _ "Inl err"] exI[of _ e1] exI[of _ "[Send s (DOM_getDocument 0)]"])
           (simp add: resolveBackendIds_def a \<open>r = Inr s\<close> g Inl traced_newCDPSession traced_sends)
    next
      case (Inr root)
      obtain m2 e2 where loop: "resolve_loop C s root sm ([], e1) = (m2, e2)"
        by (cases "resolve_loop C s root sm ([], e1)")
      from traced_loop[of C s root sm "[]" e1 "lg @ [Attach s, Send s (DOM_getDocument 0)]"] loop
      obtain evs where evs:
        "resolve_loop (traced C) s root sm ([], (e1, lg @ [Attach s, Send s (DOM_getDocument 0)]))
           = (m2, (e2, (lg @ [Attach s, Send s (DOM_getDocument 0)]) @ evs))"
        "list_all (sent_on s) evs"
        "filter is_query evs = map (\<lambda>entry. Send s (DOM_querySelector root (snd entry))) sm"
        by auto
      show ?thesis
        by (intro exI[of _ "Inr m2"] exI[of _ e2] exI[of _ "Send s (DOM_getDocument 0) # evs"])
           (simp add: resolveBackendIds_def a \<open>r = Inr s\<close> g Inr traced_newCDPSession traced_sends
              loop evs)
    qed
    then obtain rb eb mid where b:
      "resolveBackendIds C sm e = finally_detach C s (rb, eb)"
      "resolveBackendIds (traced C) sm (e, lg)
         = finally_detach (traced C) s (rb, (eb, lg @ Attach s # mid))"
      "list_all (sent_on s) mid"
      "\<forall>root. d = Inr root \<longrightarrow>
         filter is_query mid = map (\<lambda>entry. Send s (DOM_querySelector root (snd entry))) sm"
      by blast
    from finally_scoped[OF b(3), of C rb eb lg]
    obtain ev where ev:
      "finally_detach (traced C) s (rb, (eb, lg @ Attach s # mid))
         = (fst (finally_detach C s (rb, eb)),
            (snd (finally_detach C s (rb, eb)), lg @ Attach s # mid @ [ev]))"
      "scoped (Attach s # mid @ [ev])"
      "ev = Detach s \<or> ev = DetachRejected s \<and> isl (fst (finally_detach C s (rb, eb)))"
      by blast
    have q: "filter is_query (Attach s # mid @ [ev]) = filter is_query mid"
      using ev(3) by auto
    show ?thesis
      using a Inr g b(1,2,4) ev q
      by (intro exI[of _ "Attach s # mid @ [ev]"]) auto
  qed
qed

lemma isBackendNodeIdValid_requests:
  "\<exists>tr. isBackendNodeIdValid (traced C) h (e, lg)
          = (fst (isBackendNodeIdValid C h e), (snd (isBackendNodeIdValid C h e), lg @ tr)) \<and>
        scoped tr \<and>
        (tr = [] \<longleftrightarrow> isl (fst (newCDPSession C e))) \<and>
        (\<forall>s e0. newCDPSession C e = (Inr s, e0) \<longrightarrow>
           (tr = [Attach s, Send s (DOM_resolveNode h None), Detach s] \<or>
            tr = [Attach s, Send s (DOM_resolveNode h None), DetachRejected s] \<and>
            isl (fst (isBackendNodeIdValid C h e))))"
proof -
  obtain r e0 where a: "newCDPSession C e = (r, e0)" by (cases "newCDPSession C e")
  show ?thesis
  proof (cases r)
    case (Inl err)
    then show ?thesis
      using a by (intro exI[of _ "[]"]) (simp add: isBackendNodeIdValid_def traced_newCDPSession)
  next
    case (Inr s)
    obtain d e1 where g: "resolveNode C s h None e0 = (d, e1)"
      by (cases "resolveNode C s h None e0")
    let ?mid = "[Send s (DOM_resolveNode h None)]"
    have "\<exists>rb. isBackendNodeIdValid C h e = finally_detach C s (rb, e1) \<and>
            isBackendNodeIdValid (traced C) h (e, lg)
              = finally_detach (traced C) s (rb, (e1, lg @ Attach s # ?mid))"
      by (cases d)
         (auto simp: isBackendNodeIdValid_def a Inr g traced_newCDPSession traced_sends)
    then obtain rb where b:
      "isBackendNodeIdValid C h e = finally_detach C s (rb, e1)"
      "isBackendNodeIdValid (traced C) h (e, lg)
         = finally_detach (traced C) s (rb, (e1, lg @ Attach s # ?mid))"
      by blast
    have "list_all (sent_on s) ?mid" by simp
    from finally_scoped[OF this, of C rb e1 lg]
    obtain ev where ev:
      "finally_detach (traced C) s (rb, (e1, lg @ Attach s # ?mid))
         = (fst (finally_detach C s (rb, e1)),
            (snd (finally_detach C s (rb, e1)), lg @ Attach s # ?mid @ [ev]))"
      "scoped (Attach s # ?mid @ [ev])"
      "ev = Detach s \<or> ev = DetachRejected s \<and> isl (fst (finally_detach C s (rb, e1)))"
      by blast
    show ?thesis
      using a Inr b ev
      by (intro exI[of _ "Attach s # ?mid @ [ev]"]) auto
  qed
qed

lemma selector_body_requests:
  "\<exists>rb eb mid.
     (case resolveNode C s h (Some objectGroup) e0 of
        (Inl err, e1) \<Rightarrow> (Inl err, e1)
      | (Inr objectId, e1) \<Rightarrow>
          if \<not> truthy objectId
          then (Inl (Error ''Could not resolve node to object''), e1)
          else
            (case callFunctionOn C s (str objectId) build_selector e1 of
               (Inl err, e2) \<Rightarrow> (Inl err, e2)
             | (Inr result, e2) \<Rightarrow>
                 (case releaseObjectGroup C s objectGroup e2 of
                    (Inl err, e3) \<Rightarrow> (Inl err, e3)
                  | (Inr u, e3) \<Rightarrow>
                      (case exceptionDetails result of
                         Some text \<Rightarrow>
                           (Inl (Error (''Failed to build selector: '' @ text)), e3)
                       | None \<Rightarrow> (Inr (result_value result), e3))))) = (rb, eb) \<and>
     (case resolveNode (traced C) s h (Some objectGroup) (e0, lg0) of
        (Inl err, e1) \<Rightarrow> (Inl err, e1)
      | (Inr objectId, e1) \<Rightarrow>
          if \<not> truthy objectId
          then (Inl (Error ''Could not resolve node to object''), e1)
          else
            (case callFunctionOn (traced C) s (str objectId) build_selector e1 of
               (Inl err, e2) \<Rightarrow> (Inl err, e2)
             | (Inr result, e2) \<Rightarrow>
                 (case releaseObjectGroup (traced C) s objectGroup e2 of
                    (Inl err, e3) \<Rightarrow> (Inl err, e3)
                  | (Inr u, e3) \<Rightarrow>
                      (case exceptionDetails result of
                         Some text \<Rightarrow>
                           (Inl (Error (''Failed to build selector: '' @ text)), e3)
                       | None \<Rightarrow> (Inr (result_value result), e3))))) = (rb, (eb, lg0 @ mid)) \<and>
     list_all (sent_on s) mid"
proof -
  obtain r e1 where rn: "resolveNode C s h (Some objectGroup) e0 = (r, e1)"
    by (cases "resolveNode C s h (Some objectGroup) e0")
  show ?thesis
  proof (cases r)
    case (Inl err)
    show ?thesis
      by (intro exI[of _ "Inl err"] exI[of _ e1]
            exI[of _ "[Send s (DOM_resolveNode h (Some objectGroup))]"])
         (simp add: rn Inl traced_sends)
  next
    case (Inr objectId)
    show ?thesis
    proof (cases "truthy objectId")
      case False
      show ?thesis
        by (intro exI[of _ "Inl (Error ''Could not resolve node to object'')"] exI[of _ e1]
              exI[of _ "[Send s (DOM_resolveNode h (Some objectGroup))]"])
           (simp add: rn Inr False traced_sends)
    next
      case True
      obtain cr e2 where cf: "callFunctionOn C s (str objectId) build_selector e1 = (cr, e2)"
        by (cases "callFunctionOn C s (str objectId) build_selector e1")
      show ?thesis
      proof (cases cr)
        case (Inl err)
        show ?thesis
          by (intro exI[of _ "Inl err"] exI[of _ e2]
                exI[of _ "[Send s (DOM_resolveNode h (Some objectGroup)),
                           Send s (Runtime_callFunctionOn (str objectId))]"])
             (simp add: rn \<open>r = Inr objectId\<close> True cf Inl traced_sends)
      next
        case (Inr result)
        obtain rr e3 where rl: "releaseObjectGroup C s objectGroup e2 = (rr, e3)"
          by (cases "releaseObjectGroup C s objectGroup e2")
        let ?mid = "[Send s (DOM_resolveNode h (Some objectGroup)),
                     Send s (Runtime_callFunctionOn (str objectId)),
                     Send s (Runtime_releaseObjectGroup objectGroup)]"
        show ?thesis
        proof (cases rr)
          case (Inl err)
          show ?thesis
            by (intro exI[of _ "Inl err"] exI[of _ e3] exI[of _ ?mid])
               (simp add: rn \<open>r = Inr objectId\<close> True cf \<open>cr = Inr result\<close> rl Inl traced_sends)
        next
          case (Inr u)
          show ?thesis
          proof (cases "exceptionDetails result")
            case None
            show ?thesis
              by (intro exI[of _ "Inr (result_value result)"] exI[of _ e3] exI[of _ ?mid])
                 (simp add: rn \<open>r = Inr objectId\<close> True cf \<open>cr = Inr result\<close> rl Inr None
                    traced_sends)
          next
            case (Some msg)
            show ?thesis
              by (intro exI[of _ "Inl (Error (''Failed to build selector: '' @ msg))"]
                    exI[of _ e3] exI[of _ ?mid])
                 (simp add: rn \<open>r = Inr objectId\<close> True cf \<open>cr = Inr result\<close> rl Inr Some
                    traced_sends)
          qed
        qed
      qed
    qed
  qed
qed

lemma resolveSelectorFromBackendId_requests:
  "\<exists>tr. resolveSelectorFromBackendId (traced C) h (e, lg)
          = (fst (resolveSelectorFromBackendId C h e),
             (snd (resolveSelectorFromBackendId C h e), lg @ tr)) \<and>
        scoped tr \<and>
        (tr = [] \<longleftrightarrow> isl (fst (newCDPSession C e))) \<and>
        (\<forall>s e0. newCDPSession C e = (Inr s, e0) \<longrightarrow>
           hd tr = Attach s \<and>
           (last tr = Detach s \<or>
            last tr = DetachRejected s \<and> isl (fst (resolveSelectorFromBackendId C h e))))"
proof -
  obtain r e0 where a: "newCDPSession C e = (r, e0)" by (cases "newCDPSession C e")
  show ?thesis
  proof (cases r)
    case (Inl err)
    then show ?thesis
      using a
      by (intro exI[of _ "[]"]) (simp add: resolveSelectorFromBackendId_def traced_newCDPSession)
  next
    case (Inr s)
    from selector_body_requests[of C s h e0 "lg @ [Attach s]"]
    obtain rb eb mid where b:
      "resolveSelectorFromBackendId C h e = finally_detach C s (rb, eb)"
      "resolveSelectorFromBackendId (traced C) h (e, lg)
         = finally_detach (traced C) s (rb, (eb, lg @ Attach s # mid))"
      "list_all (sent_on s) mid"
      unfolding resolveSelectorFromBackendId_def a Inr traced_newCDPSession prod.case sum.case
      by auto
    from finally_scoped[OF b(3), of C rb eb lg]
    obtain ev where ev:
      "finally_detach (traced C) s (rb, (eb, lg @ Attach s # mid))
         = (fst (finally_detach C s (rb, eb)),
            (snd (finally_detach C s (rb, eb)), lg @ Attach s # mid @ [ev]))"
      "scoped (Attach s # mid @ [ev])"
      "ev = Detach s \<or> ev = DetachRejected s \<and> isl (fst (finally_detach C s (rb, eb)))"
      by blast
    show ?thesis
      using a Inr b(1,2) ev
      by (intro exI[of _ "Attach s # mid @ [ev]"]) auto
  qed
qed

text \<open>
  C7. Each of the three identity operations attaches a session of its own at the
  start of the call and asks the engine to detach it on every exit path. Run
  against any engine that records the requests it receives, a call returns what it
  returns against the engine itself, and the requests it makes are scoped: none at
  all when no session could be attached, and otherwise the attachment of the
  session the context handed out, then only commands sent on that session, then,
  as the last request, the detachment of that session, whether the call returns or
  raises; if the engine rejects that detachment, the call raises. Within
  \<open>resolveBackendIds\<close>, once the document root is known, the selector queries are
  sent on that one session one after the other in the order of the selector map,
  all of them before the detachment.
\<close>

theorem identity_sessions_scoped:
  "(\<exists>tr. resolveBackendIds (traced C) sm (e, lg)
          = (fst (resolveBackendIds C sm e), (snd (resolveBackendIds C sm e), lg @ tr)) \<and>
        scoped tr \<and>
        (tr = [] \<longleftrightarrow> isl (fst (newCDPSession C e))) \<and>
        (\<forall>s e0. newCDPSession C e = (Inr s, e0) \<longrightarrow>
           hd tr = Attach s \<and>
           (last tr = Detach s \<or>
            last tr = DetachRejected s \<and> isl (fst (resolveBackendIds C sm e))) \<and>
           (\<forall>root e1. getDocument C s 0 e0 = (Inr root, e1) \<longrightarrow>
              filter is_query tr
                = map (\<lambda>entry. Send s (DOM_querySelector root (snd entry))) sm))) \<and>
   (\<exists>tr. resolveSelectorFromBackendId (traced C) h (e, lg)
          = (fst (resolveSelectorFromBackendId C h e),
             (snd (resolveSelectorFromBackendId C h e), lg @ tr)) \<and>
        scoped tr \<and>
        (tr = [] \<longleftrightarrow> isl (fst (newCDPSession C e))) \<and>
        (\<forall>s e0. newCDPSession C e = (Inr s, e0) \<longrightarrow>
           hd tr = Attach s \<and>
           (last tr = Detach s \<or>
            last tr = DetachRejected s \<and> isl (fst (resolveSelectorFromBackendId C h e))))) \<and>
   (\<exists>tr. isBackendNodeIdValid (traced C) h (e, lg)
          = (fst (isBackendNodeIdValid C h e), (snd (isBackendNodeIdValid C h e), lg @ tr)) \<and>
        scoped tr \<and>
        (tr = [] \<longleftrightarrow> isl (fst (newCDPSession C e))) \<and>
        (\<forall>s e0. newCDPSession C e = (Inr s, e0) \<longrightarrow>
           (tr = [Attach s, Send s (DOM_resolveNode h None), Detach s] \<or>
            tr = [Attach s, Send s (DOM_resolveNode h None), DetachRejected s] \<and>
            isl (fst (isBackendNodeIdValid C h e)))))"
  by (intro conjI resolveBackendIds_requests resolveSelectorFromBackendId_requests
        isBackendNodeIdValid_requests)

theorem identity_sessions_scoped_witness:
  "snd (snd (resolveBackendIds (traced flaky_cdp) test_selectorMap (0, [])))
     = [Attach 7, Send 7 (DOM_getDocument 0),
        Send 7 (DOM_querySelector 1 ''#btn1''), Send 7 (DOM_describeNode 2),
        Send 7 (DOM_querySelector 1 ''#nonexistent''), Send 7 (DOM_querySelector 1 ''::''),
        Send 7 (DOM_querySelector 1 ''#btn1''), Send 7 (DOM_describeNode 2), Detach 7] \<and>
   scoped (snd (snd (resolveBackendIds (traced flaky_cdp) test_selectorMap (0, [])))) \<and>
   filter is_query (snd (snd (resolveBackendIds (traced flaky_cdp) test_selectorMap (0, []))))
     = [Send 7 (DOM_querySelector 1 ''#btn1''), Send 7 (DOM_querySelector 1 ''#nonexistent''),
        Send 7 (DOM_querySelector 1 ''::''), Send 7 (DOM_querySelector 1 ''#btn1'')] \<and>
   fst (resolveBackendIds (traced flaky_cdp) test_selectorMap (0, []))
     = fst (resolveBackendIds flaky_cdp test_selectorMap 0) \<and>
   scoped (snd (snd (resolveSelectorFromBackendId (traced test_cdp) 13 (0, [])))) \<and>
   snd (snd (resolveSelectorFromBackendId (traced test_cdp) 13 (0, [])))
     = [Attach 7, Send 7 (DOM_resolveNode 13 (Some ''devbrowser-selector'')),
        Send 7 (Runtime_callFunctionOn ''obj-13''),
        Send 7 (Runtime_releaseObjectGroup ''devbrowser-selector''), Detach 7] \<and>
   snd (snd (isBackendNodeIdValid (traced test_cdp) 999999999 (0, [])))
     = [Attach 7, Send 7 (DOM_resolveNode 999999999 None), Detach 7] \<and>
   snd (snd (isBackendNodeIdValid (traced stuck_cdp) 999999999 (0, [])))
     = [Attach 7, Send 7 (DOM_resolveNode 999999999 None), DetachRejected 7] \<and>
   isl (fst (isBackendNodeIdValid stuck_cdp 999999999 0)) \<and>
   snd (snd (isBackendNodeIdValid (traced closed_cdp) 12 (0, []))) = []"
proof -
  have a: "newCDPSession flaky_cdp 0 = (Inr 7, 1)"
    by (simp add: flaky_cdp_def test_cdp_def)
  have b: "getDocument flaky_cdp 7 0 1 = (Inr 1, 2)"
    by (simp add: flaky_cdp_def test_cdp_def)
  from identity_sessions_scoped[of flaky_cdp test_selectorMap 0 "[]" 13]
  obtain tr1 where t1:
    "resolveBackendIds (traced flaky_cdp) test_selectorMap (0, [])
       = (fst (resolveBackendIds flaky_cdp test_selectorMap 0),
          (snd (resolveBackendIds flaky_cdp test_selectorMap 0), tr1))"
    "scoped tr1"
    "\<forall>s e0. newCDPSession flaky_cdp 0 = (Inr s, e0) \<longrightarrow>
       hd tr1 = Attach s \<and>
       (last tr1 = Detach s \<or>
        last tr1 = DetachRejected s \<and> isl (fst (resolveBackendIds flaky_cdp test_selectorMap 0))) \<and>
       (\<forall>root e1. getDocument flaky_cdp s 0 e0 = (Inr root, e1) \<longrightarrow>
          filter is_query tr1
            = map (\<lambda>entry. Send s (DOM_querySelector root (snd entry))) test_selectorMap)"
    by auto
  from t1(3) a b have q: "filter is_query tr1
      = map (\<lambda>entry. Send 7 (DOM_querySelector 1 (snd entry))) test_selectorMap"
    by blast
  have c1: "scoped (snd (snd (resolveBackendIds (traced flaky_cdp) test_selectorMap (0, []))))"
    using t1(1,2) by simp
  have c2: "filter is_query (snd (snd (resolveBackendIds (traced flaky_cdp) test_selectorMap (0, []))))
     = [Send 7 (DOM_querySelector 1 ''#btn1''), Send 7 (DOM_querySelector 1 ''#nonexistent''),
        Send 7 (DOM_querySelector 1 ''::''), Send 7 (DOM_querySelector 1 ''#btn1'')]"
    using q t1(1) by (simp add: test_selectorMap_def)
  have c3: "fst (resolveBackendIds (traced flaky_cdp) test_selectorMap (0, []))
     = fst (resolveBackendIds flaky_cdp test_selectorMap 0)"
    using t1(1) by simp
  from identity_sessions_scoped[of test_cdp test_selectorMap 0 "[]" 13]
  obtain tr2 where t2:
    "resolveSelectorFromBackendId (traced test_cdp) 13 (0, [])
       = (fst (resolveSelectorFromBackendId test_cdp 13 0),
          (snd (resolveSelectorFromBackendId test_cdp 13 0), tr2))"
    "scoped tr2"
    by auto
  have c4: "scoped (snd (snd (resolveSelectorFromBackendId (traced test_cdp) 13 (0, []))))"
    using t2 by simp
  have a3: "newCDPSession stuck_cdp 0 = (Inr 7, 1)"
    by (simp add: stuck_cdp_def test_cdp_def)
  from identity_sessions_scoped[of stuck_cdp test_selectorMap 0 "[]" 999999999]
  obtain tr3 where t3:
    "isBackendNodeIdValid (traced stuck_cdp) 999999999 (0, [])
       = (fst (isBackendNodeIdValid stuck_cdp 999999999 0),
          (snd (isBackendNodeIdValid stuck_cdp 999999999 0), tr3))"
    "\<forall>s e0. newCDPSession stuck_cdp 0 = (Inr s, e0) \<longrightarrow>
       (tr3 = [Attach s, Send s (DOM_resolveNode 999999999 None), Detach s] \<or>
        tr3 = [Attach s, Send s (DOM_resolveNode 999999999 None), DetachRejected s] \<and>
        isl (fst (isBackendNodeIdValid stuck_cdp 999999999 0)))"
    by auto
  have c7: "snd (snd (isBackendNodeIdValid (traced stuck_cdp) 999999999 (0, [])))
     = [Attach 7, Send 7 (DOM_resolveNode 999999999 None), DetachRejected 7]"
    by code_simp
  from t3 a3 c7 have c8: "isl (fst (isBackendNodeIdValid stuck_cdp 999999999 0))"
    by auto
  have c0: "snd (snd (resolveBackendIds (traced flaky_cdp) test_selectorMap (0, [])))
     = [Attach 7, Send 7 (DOM_getDocument 0),
        Send 7 (DOM_querySelector 1 ''#btn1''), Send 7 (DOM_describeNode 2),
        Send 7 (DOM_querySelector 1 ''#nonexistent''), Send 7 (DOM_querySelector 1 ''::''),
        Send 7 (DOM_querySelector 1 ''#btn1''), Send 7 (DOM_describeNode 2), Detach 7]"
    by code_simp
  have c5: "snd (snd (resolveSelectorFromBackendId (traced test_cdp) 13 (0, [])))
     = [Attach 7, Send 7 (DOM_resolveNode 13 (Some ''devbrowser-selector'')),
        Send 7 (Runtime_callFunctionOn ''obj-13''),
        Send 7 (Runtime_releaseObjectGroup ''devbrowser-selector''), Detach 7]"
    by code_simp
  have c6: "snd (snd (isBackendNodeIdValid (traced test_cdp) 999999999 (0, [])))
     = [Attach 7, Send 7 (DOM_resolveNode 999999999 None), Detach 7]"
    by code_simp
  have c9: "snd (snd (isBackendNodeIdValid (traced closed_cdp) 12 (0, []))) = []"
    by code_simp
  from c0 c1 c2 c3 c4 c5 c6 c7 c8 c9 show ?thesis by blast
qed

section \<open>Properties of the extraction pipeline\<close>

lemma getLLMTree_full:
  "extractRawDOM S page = Some rawTree \<Longrightarrow> filterVisibleNodes S rawTree = Some visibleTree \<Longrightarrow>
   getLLMTree S page options log =
     (serializeTree S (filterByBboxPropagation S (filterByPaintOrder S visibleTree))
        (options_or_default S options),
      log @ [ExtractRawDOM, FilterVisibleNodes, FilterByPaintOrder, FilterByBboxPropagation,
             SerializeTree])"
  by (simp add: getLLMTree_def invoke_def)

lemma getLLMTree_no_raw:
  "extractRawDOM S page = None \<Longrightarrow>
   getLLMTree S page options log = (\<lparr>tree = [], selectorMap = []\<rparr>, log @ [ExtractRawDOM])"
  by (simp add: getLLMTree_def invoke_def)

lemma getLLMTree_nothing_visible:
  "extractRawDOM S page = Some rawTree \<Longrightarrow> filterVisibleNodes S rawTree = None \<Longrightarrow>
   getLLMTree S page options log =
     (\<lparr>tree = [], selectorMap = []\<rparr>, log @ [ExtractRawDOM, FilterVisibleNodes])"
  by (simp add: getLLMTree_def invoke_def)

lemma processTree_Some:
  "fst (processTree S rawTree log) = Some t \<longleftrightarrow>
     (\<exists>visibleTree. filterVisibleNodes S rawTree = Some visibleTree \<and>
        t = filterByBboxPropagation S (filterByPaintOrder S visibleTree))"
  by (cases "filterVisibleNodes S rawTree") (auto simp: processTree_def invoke_def)

lemma processTree_log:
  "fst (processTree S rawTree log) \<noteq> None \<Longrightarrow>
   snd (processTree S rawTree log)
     = log @ [FilterVisibleNodes, FilterByPaintOrder, FilterByBboxPropagation]"
  by (cases "filterVisibleNodes S rawTree") (auto simp: processTree_def invoke_def)

text \<open>
  C8. On every call \<open>getLLMTree\<close> invokes its stages in the order extraction,
  visibility filter, paint-order filter, bounding-box filter, serializer: the stages
  a call invokes are always an initial part of that sequence, and when extraction
  yields a tree and the visibility filter leaves one, all five run, each on the
  output of the one before, and the result is the serialization of the fully
  filtered tree.
\<close>

theorem getLLMTree_stage_order:
  "(\<exists>k. snd (getLLMTree S page options log) =
         log @ take k [ExtractRawDOM, FilterVisibleNodes, FilterByPaintOrder,
                       FilterByBboxPropagation, SerializeTree]) \<and>
   (\<forall>rawTree visibleTree.
      extractRawDOM S page = Some rawTree \<and> filterVisibleNodes S rawTree = Some visibleTree \<longrightarrow>
      getLLMTree S page options log =
        (serializeTree S (filterByBboxPropagation S (filterByPaintOrder S visibleTree))
           (options_or_default S options),
         log @ [ExtractRawDOM, FilterVisibleNodes, FilterByPaintOrder,
                FilterByBboxPropagation, SerializeTree]))"
proof
  let ?all = "[ExtractRawDOM, FilterVisibleNodes, FilterByPaintOrder, FilterByBboxPropagation,
               SerializeTree]"
  show "\<exists>k. snd (getLLMTree S page options log) = log @ take k ?all"
  proof (cases "extractRawDOM S page")
    case None
    then show ?thesis by (intro exI[of _ 1]) (simp add: getLLMTree_no_raw)
  next
    case (Some rawTree)
    show ?thesis
    proof (cases "filterVisibleNodes S rawTree")
      case None
      with Some show ?thesis
        by (intro exI[of _ 2]) (simp add: getLLMTree_nothing_visible numeral_2_eq_2)
    next
      case (Some visibleTree)
      with \<open>extractRawDOM S page = Some rawTree\<close> show ?thesis
        by (intro exI[of _ 5]) (simp add: getLLMTree_full)
    qed
  qed
next
  show "\<forall>rawTree visibleTree.
      extractRawDOM S page = Some rawTree \<and> filterVisibleNodes S rawTree = Some visibleTree \<longrightarrow>
      getLLMTree S page options log =
        (serializeTree S (filterByBboxPropagation S (filterByPaintOrder S visibleTree))
           (options_or_default S options),
         log @ [ExtractRawDOM, FilterVisibleNodes, FilterByPaintOrder,
                FilterByBboxPropagation, SerializeTree])"
    by (simp add: getLLMTree_full)
qed

theorem getLLMTree_stage_order_witness:
  "extractRawDOM test_stages 3 = Some [2, 0, 2] \<and>
   filterVisibleNodes test_stages [2, 0, 2] = Some [2, 2] \<and>
   getLLMTree test_stages 3 None [] =
     (\<lparr>tree = ''3'', selectorMap = [(3, ''#n'')]\<rparr>,
      [ExtractRawDOM, FilterVisibleNodes, FilterByPaintOrder, FilterByBboxPropagation,
       SerializeTree])"
proof -
  have a: "extractRawDOM test_stages 3 = Some [2, 0, 2]" by (simp add: test_stages_def)
  have b: "filterVisibleNodes test_stages [2, 0, 2] = Some [2, 2]" by (simp add: test_stages_def)
  have "getLLMTree test_stages 3 None [] =
        (serializeTree test_stages
           (filterByBboxPropagation test_stages (filterByPaintOrder test_stages [2, 2]))
           (options_or_default test_stages None),
         [] @ [ExtractRawDOM, FilterVisibleNodes, FilterByPaintOrder, FilterByBboxPropagation,
               SerializeTree])"
    using getLLMTree_stage_order[of test_stages 3 None "[]"] a b by blast
  moreover have "serializeTree test_stages
           (filterByBboxPropagation test_stages (filterByPaintOrder test_stages [2, 2]))
           (options_or_default test_stages None)
        = \<lparr>tree = ''3'', selectorMap = [(3, ''#n'')]\<rparr>"
    by code_simp
  ultimately show ?thesis using a b by simp
qed

text \<open>
  C9. When extraction yields no tree, \<open>getLLMTree\<close> returns the empty tree text and
  the empty selector map having invoked the extraction only; when the visibility
  filter removes the whole tree, it returns the same empty result having invoked
  extraction and the visibility filter only. In both cases the call returns a value
  and the later filters and the serializer are not invoked.
\<close>

theorem getLLMTree_empty_result:
  "(extractRawDOM S page = None \<longrightarrow>
      getLLMTree S page options log
        = (\<lparr>tree = [], selectorMap = []\<rparr>, log @ [ExtractRawDOM])) \<and>
   (\<forall>rawTree. extractRawDOM S page = Some rawTree \<and> filterVisibleNodes S rawTree = None \<longrightarrow>
      getLLMTree S page options log
        = (\<lparr>tree = [], selectorMap = []\<rparr>, log @ [ExtractRawDOM, FilterVisibleNodes]))"
  by (simp add: getLLMTree_no_raw getLLMTree_nothing_visible)

theorem getLLMTree_empty_result_witness:
  "extractRawDOM test_stages 0 = None \<and>
   getLLMTree test_stages 0 (Some 1) [] = (\<lparr>tree = [], selectorMap = []\<rparr>, [ExtractRawDOM]) \<and>
   extractRawDOM test_stages 1 = Some [0, 0, 0] \<and>
   filterVisibleNodes test_stages [0, 0, 0] = None \<and>
   getLLMTree test_stages 1 (Some 1) []
     = (\<lparr>tree = [], selectorMap = []\<rparr>, [ExtractRawDOM, FilterVisibleNodes])"
proof -
  have a: "extractRawDOM test_stages 0 = None" by (simp add: test_stages_def)
  have b: "extractRawDOM test_stages 1 = Some [0, 0, 0]" by (simp add: test_stages_def)
  have c: "filterVisibleNodes test_stages [0, 0, 0] = None" by (simp add: test_stages_def)
  have r1: "getLLMTree test_stages 0 (Some 1) []
              = (\<lparr>tree = [], selectorMap = []\<rparr>, [] @ [ExtractRawDOM])"
    using getLLMTree_empty_result[of test_stages 0 "Some 1" "[]"] a by blast
  have r2: "getLLMTree test_stages 1 (Some 1) []
              = (\<lparr>tree = [], selectorMap = []\<rparr>, [] @ [ExtractRawDOM, FilterVisibleNodes])"
    using getLLMTree_empty_result[of test_stages 1 "Some 1" "[]"] b c by blast
  from a b c r1 r2 show ?thesis by simp
qed

text \<open>
  C10. For a raw tree on which \<open>processTree\<close> returns a tree, serializing that tree
  with \<open>serializeDOMTree\<close> under the same options gives exactly the tree text and
  selector map that \<open>getLLMTree\<close> gives for a page whose extraction is that raw
  tree; and the two paths invoke the same filters and the serializer in the same
  order.
\<close>

theorem processTree_serializeDOMTree_equiv:
  assumes "extractRawDOM S page = Some rawTree"
      and "fst (processTree S rawTree log') = Some t"
  shows "fst (serializeDOMTree S t options log'') = fst (getLLMTree S page options log) \<and>
         serializeDOMTree S t options (snd (processTree S rawTree (log @ [ExtractRawDOM])))
           = getLLMTree S page options log"
proof -
  from assms(2) obtain visibleTree where v: "filterVisibleNodes S rawTree = Some visibleTree"
    and t: "t = filterByBboxPropagation S (filterByPaintOrder S visibleTree)"
    by (auto simp: processTree_Some)
  have "fst (processTree S rawTree (log @ [ExtractRawDOM])) \<noteq> None"
    using v by (simp add: processTree_def invoke_def)
  then have l: "snd (processTree S rawTree (log @ [ExtractRawDOM]))
      = (log @ [ExtractRawDOM]) @ [FilterVisibleNodes, FilterByPaintOrder, FilterByBboxPropagation]"
    by (rule processTree_log)
  show ?thesis
    by (simp add: getLLMTree_full[OF assms(1) v] l t serializeDOMTree_def invoke_def)
qed

theorem processTree_serializeDOMTree_equiv_witness:
  "extractRawDOM test_stages 3 = Some [2, 0, 2] \<and>
   fst (processTree test_stages [2, 0, 2] []) = Some [3] \<and>
   fst (serializeDOMTree test_stages [3] (Some 1) []) = fst (getLLMTree test_stages 3 (Some 1) []) \<and>
   fst (serializeDOMTree test_stages [3] (Some 1) []) = \<lparr>tree = ''3'', selectorMap = [(3, ''#n'')]\<rparr>"
proof -
  have a: "extractRawDOM test_stages 3 = Some [2, 0, 2]" by (simp add: test_stages_def)
  have b: "fst (processTree test_stages [2, 0, 2] []) = Some [3]"
    by (simp add: test_stages_def processTree_def invoke_def)
  have c: "fst (serializeDOMTree test_stages [3] (Some 1) [])
             = fst (getLLMTree test_stages 3 (Some 1) [])"
    using processTree_serializeDOMTree_equiv[OF a b] by blast
  have d: "fst (serializeDOMTree test_stages [3] (Some 1) [])
             = \<lparr>tree = ''3'', selectorMap = [(3, ''#n'')]\<rparr>"
    by code_simp
  from a b c d show ?thesis by blast
qed

end
